theory Spec2Isabelle
  imports Complex_Main "HOL-Library.Sublist"
begin

section \<open>Python strings\<close>

text \<open>
  A Python \<open>str\<close> is modelled as a \<open>string\<close>, each \<open>char\<close> standing for one code point
  below 256.  \<open>s.startswith(p)\<close> is \<open>prefix p s\<close> and \<open>p in s\<close> is \<open>sublist p s\<close>.
\<close>

definition isspace :: "char \<Rightarrow> bool" where
  \<comment> \<open>the code points below 256 that \<open>str.isspace\<close> accepts\<close>
  "isspace c =
     (let n = (of_char c :: nat)
      in (9 \<le> n \<and> n \<le> 13) \<or> (28 \<le> n \<and> n \<le> 32) \<or> n = 133 \<or> n = 160)"

definition strip :: "string \<Rightarrow> string" where
  \<comment> \<open>\<open>s.strip()\<close>\<close>
  "strip s = rev (dropWhile isspace (rev (dropWhile isspace s)))"

fun split_str :: "char \<Rightarrow> string \<Rightarrow> string list" where
  \<comment> \<open>\<open>s.split(sep)\<close> for a separator of one character\<close>
  "split_str sep [] = [[]]"
| "split_str sep (c # cs) =
     (if c = sep then [] # split_str sep cs
      else (case split_str sep cs of [] \<Rightarrow> [[c]] | p # ps \<Rightarrow> (c # p) # ps))"

fun before_sep :: "string \<Rightarrow> string \<Rightarrow> string" where
  \<comment> \<open>\<open>s.split(sep)[0]\<close> for a non-empty separator: the text before its first occurrence\<close>
  "before_sep sep [] = []"
| "before_sep sep (c # cs) = (if prefix sep (c # cs) then [] else c # before_sep sep cs)"

fun join :: "string \<Rightarrow> string list \<Rightarrow> string" where
  \<comment> \<open>\<open>sep.join(xs)\<close>\<close>
  "join sep [] = []"
| "join sep [x] = x"
| "join sep (x # y # ys) = x @ sep @ join sep (y # ys)"

fun replace_str :: "string \<Rightarrow> string \<Rightarrow> string \<Rightarrow> string" where
  \<comment> \<open>\<open>s.replace(old, new)\<close>: the occurrences found scanning from the left, none overlapping\<close>
  "replace_str old new [] = (if old = [] then new else [])"
| "replace_str old new (c # cs) =
     (if old = [] then new @ c # replace_str old new cs
      else if prefix old (c # cs) then new @ replace_str old new (drop (length old - 1) cs)
      else c # replace_str old new cs)"

subsection \<open>Decimal integers\<close>

definition isdigit :: "char \<Rightarrow> bool" where
  "isdigit c = (let n = (of_char c :: nat) in 48 \<le> n \<and> n \<le> 57)"

definition digit_val :: "char \<Rightarrow> nat" where
  "digit_val c = of_char c - 48"

definition digit_char :: "nat \<Rightarrow> char" where
  "digit_char d = char_of (48 + d)"

function str_nat :: "nat \<Rightarrow> string" where
  \<comment> \<open>\<open>str(n)\<close> for \<open>n \<ge> 0\<close>\<close>
  "str_nat n = (if n < 10 then [digit_char n] else str_nat (n div 10) @ [digit_char (n mod 10)])"
  by pat_completeness auto
termination
  by (relation "measure id") auto

declare str_nat.simps [simp del]

definition str_int :: "int \<Rightarrow> string" where
  \<comment> \<open>\<open>str(i)\<close>\<close>
  "str_int i = (if i < 0 then CHR ''-'' # str_nat (nat (- i)) else str_nat (nat i))"

fun parse_digits :: "nat \<Rightarrow> string \<Rightarrow> nat option" where
  \<comment> \<open>the digits after the first one; an underscore is accepted between two digits\<close>
  "parse_digits acc [] = Some acc"
| "parse_digits acc (c # cs) =
     (if isdigit c then parse_digits (10 * acc + digit_val c) cs
      else if c = CHR ''_'' \<and> cs \<noteq> [] \<and> isdigit (hd cs) then parse_digits acc cs
      else None)"

definition int_max_str_digits :: nat where
  \<comment> \<open>\<open>sys.int_info.default_max_str_digits\<close>\<close>
  "int_max_str_digits = 4300"

definition parse_nat :: "string \<Rightarrow> nat option" where
  \<comment> \<open>an unsigned decimal literal; one with more digits than the interpreter's limit is
      refused (underscores are not counted, leading zeros are)\<close>
  "parse_nat s =
     (case s of
        [] \<Rightarrow> None
      | c # cs \<Rightarrow>
          if isdigit c then
            (if int_max_str_digits < length (filter isdigit s) then None else parse_digits 0 s)
          else None)"

definition py_int :: "string \<Rightarrow> int option" where
  \<comment> \<open>\<open>int(s)\<close> on a \<open>str\<close>; \<open>None\<close> is \<open>ValueError\<close>.  The code applies it to
      stripped text only.\<close>
  "py_int s =
     (case strip s of
        [] \<Rightarrow> None
      | c # cs \<Rightarrow>
          if c = CHR ''-'' then map_option (\<lambda>n. - int n) (parse_nat cs)
          else if c = CHR ''+'' then map_option int (parse_nat cs)
          else map_option int (parse_nat (c # cs)))"

section \<open>Scoring parser (\<open>evaluation/evaluator.py\<close>)\<close>

datatype py_error = IndexError | ValueError | OtherError

definition str_error :: "py_error \<Rightarrow> string" where
  \<comment> \<open>\<open>str(e)\<close>\<close>
  "str_error e =
     (case e of
        IndexError \<Rightarrow> ''list index out of range''
      | ValueError \<Rightarrow> ''invalid literal for int() with base 10''
      | OtherError \<Rightarrow> [])"

record evaluation =
  accuracy :: int
  completeness :: int
  relevance :: int
  justification :: string

definition score_of_line :: "string \<Rightarrow> py_error + int" where
  \<comment> \<open>\<open>int(score_line.split(":")[1].strip())\<close>: the index raises \<open>IndexError\<close> on a line
      without a colon, \<open>int\<close> raises \<open>ValueError\<close>\<close>
  "score_of_line score_line =
     (case split_str CHR '':'' score_line of
        _ # field # _ \<Rightarrow>
          (case py_int (strip field) of None \<Rightarrow> Inl ValueError | Some n \<Rightarrow> Inr n)
      | _ \<Rightarrow> Inl IndexError)"

definition extract_score_try :: "string list \<Rightarrow> string \<Rightarrow> py_error + int" where
  \<comment> \<open>the body of the \<open>try\<close> in \<open>extract_score\<close>; \<open>next(..., "")\<close> gives the
      empty line when no line starts with the label\<close>
  "extract_score_try lines pre =
     (let score_line = (case find (prefix pre) lines of None \<Rightarrow> [] | Some l \<Rightarrow> l)
      in if score_line \<noteq> [] then score_of_line score_line else Inr 0)"

definition extract_score :: "string list \<Rightarrow> string \<Rightarrow> py_error + int" where
  \<comment> \<open>\<open>except (IndexError, ValueError): return 0\<close>; any other exception passes through\<close>
  "extract_score lines pre =
     (case extract_score_try lines pre of
        Inl IndexError \<Rightarrow> Inr 0
      | Inl ValueError \<Rightarrow> Inr 0
      | Inl e \<Rightarrow> Inl e
      | Inr n \<Rightarrow> Inr n)"

definition extract_justification :: "string list \<Rightarrow> string" where
  "extract_justification lines =
     (let justification_lines = filter (prefix ''Justification'') lines
      in if justification_lines \<noteq> []
         then strip (replace_str ''Justification:'' [] (join '' '' justification_lines))
         else [])"

definition parse_try :: "string \<Rightarrow> py_error + evaluation" where
  \<comment> \<open>the body of the parsing \<open>try\<close> of \<open>call_bedrock_model\<close>\<close>
  "parse_try result =
     (let lines = split_str CHR ''\<newline>'' result
      in case extract_score lines ''Accuracy score'' of
           Inl e \<Rightarrow> Inl e
         | Inr a \<Rightarrow>
        (case extract_score lines ''Completeness score'' of
           Inl e \<Rightarrow> Inl e
         | Inr c \<Rightarrow>
        (case extract_score lines ''Relevance score'' of
           Inl e \<Rightarrow> Inl e
         | Inr r \<Rightarrow>
             Inr \<lparr>accuracy = a, completeness = c, relevance = r,
                  justification = extract_justification lines\<rparr>)))"

definition parse_result :: "string \<Rightarrow> evaluation" where
  \<comment> \<open>\<open>except Exception as parsing_error\<close>: the zero record that carries the error\<close>
  "parse_result result =
     (case parse_try result of
        Inr ev \<Rightarrow> ev
      | Inl parsing_error \<Rightarrow>
          \<lparr>accuracy = 0, completeness = 0, relevance = 0,
           justification = ''Parsing error: '' @ str_error parsing_error\<rparr>)"

subsection \<open>The justification as the specification words it\<close>

definition strip_prefix :: "string \<Rightarrow> string \<Rightarrow> string" where
  "strip_prefix p s = (if prefix p s then drop (length p) s else s)"

definition spec_justification :: "string list \<Rightarrow> string" where
  \<comment> \<open>the lines beginning with \<open>Justification\<close>, each without its leading
      \<open>Justification:\<close>, joined by one space and trimmed\<close>
  "spec_justification lines =
     strip (join '' '' (map (strip_prefix ''Justification:'')
                          (filter (prefix ''Justification'') lines)))"

section \<open>Judge invoker (\<open>call_bedrock_model\<close> in \<open>evaluation/evaluator.py\<close>)\<close>

text \<open>
  The outside world is explicit.  The judging model is a function of the invocations made
  so far, the model id and the prompt; it answers with the response text (\<open>Inr\<close>) or with
  the message of the exception that \<open>invoke_model\<close> or the decoding of its body raised
  (\<open>Inl\<close>).  What the code does to the world is recorded: every invocation, every
  \<open>time.sleep\<close> and every warning it logs.
\<close>

datatype warning =
    FallbackWarning
  | RetryWarning
  | SkipMissing nat
  | SkipTimeout nat

definition warning_text :: "warning \<Rightarrow> string" where
  "warning_text w =
     (case w of
        FallbackWarning \<Rightarrow> ''Inference profile error detected, trying fallback model''
      | RetryWarning \<Rightarrow> ''Error calling Bedrock model, retrying in 2 seconds''
      | SkipMissing n \<Rightarrow>
          ''Skipping entry '' @ str_nat n @ '' due to missing question or expected answer''
      | SkipTimeout n \<Rightarrow> ''Skipping entry '' @ str_nat n @ '' due to timeout'')"

record world =
  invocations :: "(string \<times> string) list"
  sleeps :: "nat list"
  warnings :: "warning list"

type_synonym bedrock = "(string \<times> string) list \<Rightarrow> string \<Rightarrow> string \<Rightarrow> string + string"

definition BEDROCK_DEFAULT_MODEL :: string where
  "BEDROCK_DEFAULT_MODEL = ''anthropic.claude-3-sonnet-20240229-v1:0''"

definition BEDROCK_FALLBACK_MODEL :: string where
  "BEDROCK_FALLBACK_MODEL = ''anthropic.claude-instant-v1''"

definition build_judging_prompt :: "string \<Rightarrow> string \<Rightarrow> string \<Rightarrow> (string \<rightharpoonup> string)" where
  "build_judging_prompt question generated reference =
     [''question'' \<mapsto> question, ''generated'' \<mapsto> generated, ''reference'' \<mapsto> reference]"

definition get_or :: "(string \<rightharpoonup> string) \<Rightarrow> string \<Rightarrow> string \<Rightarrow> string" where
  \<comment> \<open>\<open>d.get(key, default)\<close>\<close>
  "get_or d key dflt = (case d key of None \<Rightarrow> dflt | Some v \<Rightarrow> v)"

definition or_else :: "string \<Rightarrow> string \<Rightarrow> string" where
  \<comment> \<open>\<open>s or default\<close> on strings\<close>
  "or_else s dflt = (if s = [] then dflt else s)"

definition judging_prompt :: "string \<Rightarrow> string \<Rightarrow> string \<Rightarrow> string" where
  "judging_prompt question generated reference =
     ''Evaluate the generated answer compared to the expected answer.\<newline>\<newline>Question: ''
     @ question @ ''\<newline>\<newline>Generated answer: '' @ generated
     @ ''\<newline>\<newline>Expected answer: '' @ reference
     @ ''\<newline>\<newline>Provide evaluation scores with:\<newline>''
     @ ''- Accuracy (from 0 to 10): How factually correct the generated answer is compared to the expected answer\<newline>''
     @ ''- Completeness (from 0 to 10): How thoroughly the generated answer covers all aspects of the expected answer\<newline>''
     @ ''- Relevance (from 0 to 10): How is the generated answer relative to the specific question asked. Do they have the same topic? Does the answer address the same aspects of the question's topic?\<newline>''
     @ ''\<newline>Response format:\<newline>Accuracy score: [0-10]\<newline>Completeness score: [0-10]\<newline>''
     @ ''Relevance score: [0-10]\<newline>Justification: [Detailed explanation]''"

definition is_inference_profile_error :: "string \<Rightarrow> bool" where
  "is_inference_profile_error error_message =
     (sublist ''ValidationException'' error_message \<and> sublist ''inference profile'' error_message)"

function retry_loop ::
  "bedrock \<Rightarrow> string \<Rightarrow> int \<Rightarrow> int \<Rightarrow> string \<Rightarrow> world \<Rightarrow> (string + string option) \<times> world" where
  \<comment> \<open>the \<open>while retries < max_retries\<close> loop: \<open>Inl\<close> is the exception re-raised out of
      it, \<open>Inr\<close> the value of \<open>result\<close> when the loop ends\<close>
  "retry_loop bedrock prompt max_retries retries model_id w =
     (if retries < max_retries then
        (let w1 = w\<lparr>invocations := invocations w @ [(model_id, prompt)]\<rparr>
         in case bedrock (invocations w) model_id prompt of
              Inr text \<Rightarrow> (Inr (Some text), w1)
            | Inl error_message \<Rightarrow>
                if is_inference_profile_error error_message then
                  retry_loop bedrock prompt max_retries (retries + 1) BEDROCK_FALLBACK_MODEL
                    (w1\<lparr>warnings := warnings w1 @ [FallbackWarning]\<rparr>)
                else if retries + 1 < max_retries then
                  retry_loop bedrock prompt max_retries (retries + 1) model_id
                    (w1\<lparr>warnings := warnings w1 @ [RetryWarning], sleeps := sleeps w1 @ [2]\<rparr>)
                else (Inl error_message, w1))
      else (Inr None, w))"
  by pat_completeness auto
termination
  by (relation "measure (\<lambda>(bedrock, prompt, max_retries, retries, model_id, w). nat (max_retries - retries))")
     auto

declare retry_loop.simps [simp del]

definition failed_response :: evaluation where
  "failed_response =
     \<lparr>accuracy = 0, completeness = 0, relevance = 0,
      justification = ''Failed to get response from model''\<rparr>"

definition prompt_of :: "(string \<rightharpoonup> string) \<Rightarrow> string" where
  \<comment> \<open>the prompt, with the placeholder for a blank field\<close>
  "prompt_of prompt_inputs =
     (let question = or_else (strip (get_or prompt_inputs ''question'' [])) ''Question not provided'';
          generated = or_else (strip (get_or prompt_inputs ''generated'' []))
                        ''Generated answer not provided'';
          reference = or_else (strip (get_or prompt_inputs ''reference'' []))
                        ''Expected answer not provided''
      in judging_prompt question generated reference)"

definition call_bedrock_model ::
  "bedrock \<Rightarrow> (string \<rightharpoonup> string) \<Rightarrow> int \<Rightarrow> world \<Rightarrow> evaluation \<times> world" where
  \<comment> \<open>\<open>if not result\<close> holds for \<open>None\<close> and for the empty text; the outer
      \<open>except Exception as e\<close> receives what the loop re-raised\<close>
  "call_bedrock_model bedrock prompt_inputs max_retries w =
     (let prompt = prompt_of prompt_inputs
      in case retry_loop bedrock prompt max_retries 0 BEDROCK_DEFAULT_MODEL w of
           (Inl e, w') \<Rightarrow>
             (\<lparr>accuracy = 0, completeness = 0, relevance = 0,
               justification = ''Failed to evaluate: '' @ e\<rparr>, w')
         | (Inr None, w') \<Rightarrow> (failed_response, w')
         | (Inr (Some text), w') \<Rightarrow>
             (if text = [] then failed_response else parse_result text, w'))"

section \<open>Judging stage (\<open>process_json_data\<close> in \<open>evaluation/json_validator.py\<close>)\<close>

text \<open>
  An input entry has the keys \<open>Question\<close>, \<open>Expected Answer\<close> and \<open>Generated Answer\<close>.
  The value of the first two is absent, \<open>null\<close> or a string (values of other JSON types
  are outside the model).  The generated answer is absent, a plain string (\<open>null\<close> reads
  as the empty string), or the object with \<open>raw_response\<close> and \<open>text_response\<close> that the
  generation stage writes, a member of which is \<open>None\<close> when absent or \<open>null\<close>.
\<close>

datatype json_string = Absent | Null | Str string

datatype generated_answer =
    Missing
  | Plain string
  | Structured (raw_response: "string option") (text_response: "string option")

record entry =
  Question :: json_string
  Expected_Answer :: json_string
  Generated_Answer :: generated_answer

record result_entry =
  question :: string
  expected_answer :: string
  generated_answer :: string
  text_response_evaluation :: evaluation










subsection \<open>Example judging services\<close>

definition profile_error_text :: string where
  "profile_error_text =
     ''ValidationException: on-demand throughput is not supported, use an inference profile''"

definition bedrock_on_fallback_only :: "string \<Rightarrow> bedrock" where
  \<comment> \<open>rejects the default model for its inference profile, answers on any other model\<close>
  "bedrock_on_fallback_only answer history model_id prompt =
     (if model_id = BEDROCK_DEFAULT_MODEL then Inl profile_error_text else Inr answer)"


definition world0 :: world where
  "world0 = \<lparr>invocations = [], sleeps = [], warnings = []\<rparr>"

section \<open>Answer generation (\<open>generation/response_generator.py\<close>)\<close>

definition timeout_message :: string where
  "timeout_message =
     ''The model took too long to respond (timeout after 30 seconds). re-run the script.''"

datatype json_loads_result =
    JSONDecodeError
  | HasErrorMessage string
  | NoErrorMessage
  | LoadsRaised string

definition invoke_retrieval_lambda ::
  "(string \<Rightarrow> string + string) \<Rightarrow> (string \<Rightarrow> json_loads_result) \<Rightarrow> string \<Rightarrow> string \<times> string" where
  \<comment> \<open>\<open>lambda_invoke\<close> is the Lambda call with the decoding of its payload: the raw answer,
      or the message of the exception raised; \<open>json_loads\<close> says what \<open>json.loads\<close> does
      on the raw answer and whether the loaded value has an \<open>errorMessage\<close>\<close>
  "invoke_retrieval_lambda lambda_invoke json_loads q =
     (case lambda_invoke q of
        Inl e \<Rightarrow> (''Error invoking Lambda: '' @ e, ''Error invoking Lambda: '' @ e)
      | Inr raw_answer \<Rightarrow>
          if sublist ''errorType'' raw_answer \<and> sublist ''Sandbox.Timedout'' raw_answer
          then (timeout_message, timeout_message)
          else if raw_answer = [] then (raw_answer, [])
          else
            (let extracted_answer =
                   (if sublist ''<sessionId>'' raw_answer
                    then strip (before_sep ''<sessionId>'' raw_answer)
                    else strip raw_answer)
             in if sublist ''errorType'' raw_answer \<and> sublist ''errorMessage'' raw_answer then
                  (case json_loads raw_answer of
                     HasErrorMessage m \<Rightarrow> (''Error: '' @ m, ''Error: '' @ m)
                   | NoErrorMessage \<Rightarrow> (raw_answer, extracted_answer)
                   | JSONDecodeError \<Rightarrow> (raw_answer, extracted_answer)
                   | LoadsRaised e \<Rightarrow>
                       (''Error invoking Lambda: '' @ e, ''Error invoking Lambda: '' @ e))
                else (raw_answer, extracted_answer)))"

text \<open>
  The generation stage submits one task for every item that has the key \<open>Question\<close> and stores
  each outcome in the item's own slot.  \<open>outcome i\<close> is what \<open>future.result()\<close> gives for
  the task of item \<open>i\<close>: the pair the task returned, or the message of the exception it
  raised.  \<open>order\<close> is the order in which \<open>as_completed\<close> yields the futures.
\<close>

definition submitted :: "entry list \<Rightarrow> nat list" where
  "submitted items = filter (\<lambda>i. Question (items ! i) \<noteq> Absent) [0..<length items]"

definition store_outcome :: "(nat \<Rightarrow> string + string \<times> string) \<Rightarrow> nat \<Rightarrow> entry list \<Rightarrow> entry list" where
  \<comment> \<open>the body of the loop over \<open>as_completed(futures)\<close>\<close>
  "store_outcome outcome i input_data =
     (case outcome i of
        Inr (raw_answer, extracted_answer) \<Rightarrow>
          input_data[i := (input_data ! i)
            \<lparr>Generated_Answer := Structured (Some raw_answer) (Some extracted_answer)\<rparr>]
      | Inl e \<Rightarrow>
          input_data[i := (input_data ! i)
            \<lparr>Generated_Answer := Structured (Some (''Error: '' @ e)) (Some [])\<rparr>])"

definition stored :: "(nat \<Rightarrow> string + string \<times> string) \<Rightarrow> nat \<Rightarrow> generated_answer" where
  \<comment> \<open>the \<open>Generated Answer\<close> that the loop stores for item \<open>i\<close>\<close>
  "stored outcome i =
     (case outcome i of
        Inr (raw_answer, extracted_answer) \<Rightarrow> Structured (Some raw_answer) (Some extracted_answer)
      | Inl e \<Rightarrow> Structured (Some (''Error: '' @ e)) (Some []))"

definition collect_results :: "(nat \<Rightarrow> string + string \<times> string) \<Rightarrow> nat list \<Rightarrow> entry list \<Rightarrow> entry list" where
  "collect_results outcome order input_data = fold (store_outcome outcome) order input_data"

definition process_input_json ::
  "(nat \<Rightarrow> string + string \<times> string) \<Rightarrow> nat list \<Rightarrow> entry list option \<Rightarrow> bool
     \<Rightarrow> bool \<times> entry list" where
  \<comment> \<open>the returned flag and the data handed to \<open>write_json_to_s3\<close>\<close>
  "process_input_json outcome order input_data write_success =
     (case input_data of
        None \<Rightarrow> (False, [])
      | Some items \<Rightarrow>
          if items = [] then (False, [])
          else (write_success, collect_results outcome order items))"

definition task_raising :: "string \<Rightarrow> nat \<Rightarrow> string + string \<times> string" where
  \<comment> \<open>an example: every task raises with the given message\<close>
  "task_raising e i = Inl e"

definition first_task_raising :: "string \<Rightarrow> nat \<Rightarrow> string + string \<times> string" where
  \<comment> \<open>an example: the task of item 0 raises, every other task returns an answer\<close>
  "first_task_raising e i = (if i = 0 then Inl e else Inr (''raw answer'', ''answer''))"

section \<open>Metrics aggregator (\<open>evaluation/metrics.py\<close>)\<close>

text \<open>
  The scores of a record are integers.  A float is modelled by the real number it stands
  for.  The numeric library is a parameter: \<open>float_of\<close> rounds a real to the nearest
  float, as the quotient of two integers is rounded, and \<open>stats_of_ints\<close> and
  \<open>stats_of_floats\<close> are the five \<open>numpy\<close> statistics of a sequence, or the error that
  \<open>numpy\<close> raises on it.  \<open>round\<close> of a float is exact: the nearest integer, a tie
  going to the even one.
\<close>

datatype metrics_error = ZeroDivisionError | OverflowError | LibraryError

record stats =
  mean :: real
  median :: real
  min_val :: real
  max_val :: real
  std :: real

record numerics =
  float_of :: "real \<Rightarrow> real"
  stats_of_ints :: "int list \<Rightarrow> metrics_error + stats"
  stats_of_floats :: "real list \<Rightarrow> metrics_error + stats"

record metrics_result =
  count :: nat
  metrics :: "string \<rightharpoonup> stats"
  distribution :: "string \<rightharpoonup> (int \<rightharpoonup> nat)"

definition float_overflow :: "real \<Rightarrow> bool" where
  \<comment> \<open>the reals that round beyond the largest float\<close>
  "float_overflow x = (2 ^ 1024 - 2 ^ 970 \<le> \<bar>x\<bar>)"

definition true_divide :: "(real \<Rightarrow> real) \<Rightarrow> int \<Rightarrow> int \<Rightarrow> metrics_error + real" where
  \<comment> \<open>\<open>n / d\<close> on two \<open>int\<close>s\<close>
  "true_divide fl n d =
     (if d = 0 then Inl ZeroDivisionError
      else if float_overflow (real_of_int n / real_of_int d) then Inl OverflowError
      else Inr (fl (real_of_int n / real_of_int d)))"

definition py_round :: "real \<Rightarrow> int" where
  \<comment> \<open>\<open>round(x)\<close> on a float\<close>
  "py_round x =
     (let f = \<lfloor>x\<rfloor>; d = x - of_int f
      in if d < 1 / 2 then f else if 1 / 2 < d then f + 1 else if even f then f else f + 1)"

definition round_int :: "int \<Rightarrow> int" where
  \<comment> \<open>\<open>round(n)\<close> on an \<open>int\<close>\<close>
  "round_int n = n"

definition bins :: "('a \<Rightarrow> int) \<Rightarrow> 'a list \<Rightarrow> (int \<rightharpoonup> nat)" where
  \<comment> \<open>\<open>for i in range(11): bins[i] = sum(1 for s in scores if round(s) == i)\<close>\<close>
  "bins rnd scores =
     fold (\<lambda>i b. b(int i \<mapsto> length (filter (\<lambda>s. rnd s = int i) scores))) [0..<11] Map.empty"

definition is_skipped :: "result_entry \<Rightarrow> bool" where
  "is_skipped r = sublist ''Skipped due to timeout'' (justification (text_response_evaluation r))"

fun collect_scores :: "result_entry list \<Rightarrow> int list \<times> int list \<times> int list" where
  \<comment> \<open>the loop that fills \<open>accuracy_scores\<close>, \<open>completeness_scores\<close> and
      \<open>relevance_scores\<close>\<close>
  "collect_scores [] = ([], [], [])"
| "collect_scores (r # rs) =
     (case collect_scores rs of
        (accuracy_scores, completeness_scores, relevance_scores) \<Rightarrow>
          if \<not> is_skipped r then
            (accuracy (text_response_evaluation r) # accuracy_scores,
             completeness (text_response_evaluation r) # completeness_scores,
             relevance (text_response_evaluation r) # relevance_scores)
          else (accuracy_scores, completeness_scores, relevance_scores))"

fun combined_scores :: "(real \<Rightarrow> real) \<Rightarrow> (int \<times> int \<times> int) list \<Rightarrow> metrics_error + real list" where
  \<comment> \<open>\<open>[(a + c + r) / 3 for a, c, r in zip(...)]\<close>, stopped by the first quotient that
      raises\<close>
  "combined_scores fl [] = Inr []"
| "combined_scores fl ((a, c, r) # xs) =
     (case true_divide fl (a + c + r) 3 of
        Inl e \<Rightarrow> Inl e
      | Inr m \<Rightarrow>
          (case combined_scores fl xs of
             Inl e \<Rightarrow> Inl e
           | Inr ms \<Rightarrow> Inr (m # ms)))"

definition empty_metrics :: metrics_result where
  "empty_metrics = \<lparr>count = 0, metrics = Map.empty, distribution = Map.empty\<rparr>"

definition calculate_metrics :: "numerics \<Rightarrow> result_entry list \<Rightarrow> metrics_error + metrics_result" where
  "calculate_metrics lib evaluation_results =
     (if evaluation_results = [] then Inr empty_metrics
      else
        (case collect_scores evaluation_results of
           (accuracy_scores, completeness_scores, relevance_scores) \<Rightarrow>
             if accuracy_scores = [] then Inr empty_metrics
             else
               (case stats_of_ints lib accuracy_scores of
                  Inl e \<Rightarrow> Inl e
                | Inr m_accuracy \<Rightarrow>
               (case stats_of_ints lib completeness_scores of
                  Inl e \<Rightarrow> Inl e
                | Inr m_completeness \<Rightarrow>
               (case stats_of_ints lib relevance_scores of
                  Inl e \<Rightarrow> Inl e
                | Inr m_relevance \<Rightarrow>
               (case combined_scores (float_of lib)
                       (zip accuracy_scores (zip completeness_scores relevance_scores)) of
                  Inl e \<Rightarrow> Inl e
                | Inr combined \<Rightarrow>
               (case stats_of_floats lib combined of
                  Inl e \<Rightarrow> Inl e
                | Inr m_combined \<Rightarrow>
                    Inr \<lparr>count = length accuracy_scores,
                         metrics =
                           [''accuracy'' \<mapsto> m_accuracy, ''completeness'' \<mapsto> m_completeness,
                            ''relevance'' \<mapsto> m_relevance, ''combined'' \<mapsto> m_combined],
                         distribution =
                           [''accuracy'' \<mapsto> bins round_int accuracy_scores,
                            ''completeness'' \<mapsto> bins round_int completeness_scores,
                            ''relevance'' \<mapsto> bins round_int relevance_scores,
                            ''combined'' \<mapsto> bins py_round combined]\<rparr>)))))))"

subsection \<open>The evaluated subset and the mean of a record\<close>

definition evaluated :: "result_entry list \<Rightarrow> result_entry list" where
  \<comment> \<open>the records whose justification has no timeout-skip marker\<close>
  "evaluated evaluation_results = filter (\<lambda>r. \<not> is_skipped r) evaluation_results"

definition arithmetic_mean :: "result_entry \<Rightarrow> real" where
  \<comment> \<open>the exact mean of the three scores of one record\<close>
  "arithmetic_mean r =
     real_of_int (accuracy (text_response_evaluation r) + completeness (text_response_evaluation r)
       + relevance (text_response_evaluation r)) / 3"

definition scores_of :: "result_entry \<Rightarrow> int \<times> int \<times> int" where
  "scores_of r =
     (accuracy (text_response_evaluation r), completeness (text_response_evaluation r),
      relevance (text_response_evaluation r))"

subsection \<open>An example library\<close>

definition np_mean :: "real list \<Rightarrow> real" where
  "np_mean xs = sum_list xs / real (length xs)"

definition np_median :: "real list \<Rightarrow> real" where
  "np_median xs =
     (let s = sort xs; n = length s
      in if even n then (s ! (n div 2 - 1) + s ! (n div 2)) / 2 else s ! (n div 2))"

definition np_std :: "real list \<Rightarrow> real" where
  "np_std xs = sqrt (np_mean (map (\<lambda>x. (x - np_mean xs)\<^sup>2) xs))"

definition summary :: "real list \<Rightarrow> metrics_error + stats" where
  "summary xs =
     (if xs = [] then Inl LibraryError
      else Inr \<lparr>mean = np_mean xs, median = np_median xs,
                min_val = Min (set xs), max_val = Max (set xs), std = np_std xs\<rparr>)"

definition exact_library :: numerics where
  \<comment> \<open>an example: statistics over the reals, and a quotient that needs no rounding\<close>
  "exact_library =
     \<lparr>float_of = (\<lambda>x. x), stats_of_ints = (\<lambda>xs. summary (map real_of_int xs)),
      stats_of_floats = summary\<rparr>"

section \<open>Facts about the string operations\<close>

lemma prefix_nth: "prefix p xs \<Longrightarrow> k < length p \<Longrightarrow> xs ! k = p ! k"
  by (auto simp: prefix_def nth_append)

lemma isdigit_digit_char: "d < 10 \<Longrightarrow> isdigit (digit_char d)"
  by (simp add: isdigit_def digit_char_def)

lemma digit_val_digit_char: "d < 10 \<Longrightarrow> digit_val (digit_char d) = d"
  by (simp add: digit_val_def digit_char_def)

lemma str_nat_digits: "\<forall>c \<in> set (str_nat n). isdigit c"
proof (induction n rule: str_nat.induct)
  case (1 n)
  show ?case
  proof (cases "n < 10")
    case True
    then show ?thesis by (subst str_nat.simps) (simp add: isdigit_digit_char)
  next
    case False
    with 1 show ?thesis
      by (subst str_nat.simps) (simp add: isdigit_digit_char)
  qed
qed

lemma str_nat_not_Nil: "str_nat n \<noteq> []"
  by (subst str_nat.simps) simp

lemma parse_digits_all:
  "\<forall>c \<in> set ds. isdigit c \<Longrightarrow> parse_digits acc ds = Some (foldl (\<lambda>a c. 10 * a + digit_val c) acc ds)"
  by (induction ds arbitrary: acc) simp_all

lemma foldl_str_nat: "foldl (\<lambda>a c. 10 * a + digit_val c) 0 (str_nat n) = n"
proof (induction n rule: str_nat.induct)
  case (1 n)
  show ?case
  proof (cases "n < 10")
    case True
    then show ?thesis by (subst str_nat.simps) (simp add: digit_val_digit_char)
  next
    case False
    with 1 show ?thesis
      by (subst str_nat.simps) (simp add: digit_val_digit_char)
  qed
qed

lemma filter_isdigit_str_nat: "filter isdigit (str_nat n) = str_nat n"
  using str_nat_digits [of n] by (simp add: filter_id_conv)

lemma parse_nat_str_nat:
  assumes "length (str_nat n) \<le> 4300"
  shows "parse_nat (str_nat n) = Some n"
proof -
  obtain c cs where s: "str_nat n = c # cs" using str_nat_not_Nil by (cases "str_nat n") auto
  have "isdigit c" using str_nat_digits [of n] s by simp
  moreover have "parse_digits 0 (str_nat n) = Some n"
    using parse_digits_all [OF str_nat_digits, of 0 n] by (simp add: foldl_str_nat)
  moreover have "\<not> int_max_str_digits < length (filter isdigit (str_nat n))"
    using assms by (simp add: filter_isdigit_str_nat int_max_str_digits_def)
  ultimately show ?thesis
    unfolding parse_nat_def s [symmetric] using s
    by (simp del: parse_digits.simps split: list.splits)
qed

lemma isdigit_not_space: "isdigit c \<Longrightarrow> \<not> isspace c"
  by (auto simp: isdigit_def isspace_def Let_def)

lemma dropWhile_hd: "s \<noteq> [] \<Longrightarrow> \<not> P (hd s) \<Longrightarrow> dropWhile P s = s"
  by (cases s) auto

lemma strip_id: "s \<noteq> [] \<Longrightarrow> \<not> isspace (hd s) \<Longrightarrow> \<not> isspace (last s) \<Longrightarrow> strip s = s"
  by (simp add: strip_def dropWhile_hd hd_rev)


lemma prefix_append_long: "prefix p (a @ r) \<Longrightarrow> length p \<le> length a \<Longrightarrow> prefix p a"
  by (metis prefix_length_prefix prefix_order.order_refl prefix_append append_prefixD le_refl prefixI prefix_same_cases)

lemma absent_char_no_straddle:
  assumes "prefix p (a @ c # r)" and "c \<notin> set p"
  shows "prefix p a"
proof (rule prefix_append_long [OF assms(1)])
  show "length p \<le> length a"
  proof (rule ccontr)
    assume "\<not> length p \<le> length a"
    then have k: "length a < length p" by simp
    from prefix_nth [OF assms(1) k] have "p ! length a = c" by simp
    with k assms(2) show False using nth_mem by metis
  qed
qed

lemma no_self_overlap:
  assumes "prefix (c # ps) (a @ (c # ps) @ r)" and "c \<notin> set ps" and "a \<noteq> []"
  shows "prefix (c # ps) a"
proof (rule prefix_append_long [OF assms(1)])
  show "length (c # ps) \<le> length a"
  proof (rule ccontr)
    assume "\<not> length (c # ps) \<le> length a"
    then have k: "length a < length (c # ps)" by simp
    from prefix_nth [OF assms(1) k] have "(c # ps) ! length a = c" by simp
    moreover from assms(3) obtain m where m: "length a = Suc m" by (cases a) auto
    ultimately have "ps ! m = c" by simp
    moreover from k m have "m < length ps" by simp
    ultimately show False using assms(2) nth_mem by metis
  qed
qed

lemma replace_str_skip:
  assumes "pat \<noteq> []"
    and "\<And>u v. a = u @ v \<Longrightarrow> v \<noteq> [] \<Longrightarrow> \<not> prefix pat (v @ r)"
  shows "replace_str pat new (a @ r) = a @ replace_str pat new r"
  using assms(2)
proof (induction a)
  case Nil
  show ?case by simp
next
  case (Cons x a)
  have np: "\<not> prefix pat ((x # a) @ r)"
    using Cons.prems [of "[]" "x # a"] by simp
  have "replace_str pat new (a @ r) = a @ replace_str pat new r"
  proof (rule Cons.IH)
    fix u v assume "a = u @ v" and "v \<noteq> []"
    then show "\<not> prefix pat (v @ r)" using Cons.prems [of "x # u" v] by simp
  qed
  with np assms(1) show ?case by simp
qed

lemma replace_str_at:
  assumes "pat \<noteq> []"
  shows "replace_str pat new (pat @ r) = new @ replace_str pat new r"
proof -
  obtain c ps where p: "pat = c # ps" using assms by (cases pat) auto
  show ?thesis by (simp add: p)
qed

lemma replace_str_absent:
  assumes "pat \<noteq> []" and "\<not> sublist pat a"
  shows "replace_str pat new a = a"
proof -
  have "replace_str pat new (a @ []) = a @ replace_str pat new []"
  proof (rule replace_str_skip [OF assms(1)])
    fix u v assume "a = u @ v" and "v \<noteq> []"
    with assms(2) show "\<not> prefix pat (v @ [])"
      by (auto simp: sublist_def prefix_def)
  qed
  with assms(1) show ?thesis by simp
qed

lemma str_int_eq_Cons:
  "\<exists>c cs. str_int i = c # cs \<and> (i < 0 \<longrightarrow> c = CHR ''-'' \<and> cs = str_nat (nat (- i)))
      \<and> (\<not> i < 0 \<longrightarrow> isdigit c \<and> c # cs = str_nat (nat i))"
proof (cases "i < 0")
  case True
  then show ?thesis by (simp add: str_int_def)
next
  case False
  obtain c cs where s: "str_nat (nat i) = c # cs"
    using str_nat_not_Nil by (cases "str_nat (nat i)") auto
  have "isdigit c" using str_nat_digits [of "nat i"] s by simp
  with False s show ?thesis by (simp add: str_int_def)
qed

lemma minus_not_space: "\<not> isspace CHR ''-''"
  by (simp add: isspace_def)

lemma str_nat_last: "isdigit (last (str_nat n))"
  using str_nat_digits [of n] str_nat_not_Nil [of n] last_in_set by blast

lemma str_nat_hd: "isdigit (hd (str_nat n))"
  using str_nat_digits [of n] str_nat_not_Nil [of n] hd_in_set by blast

lemma strip_str_int: "strip (str_int i) = str_int i"
proof (rule strip_id)
  show "str_int i \<noteq> []" by (simp add: str_int_def str_nat_not_Nil)
  show "\<not> isspace (hd (str_int i))"
    by (simp add: str_int_def minus_not_space isdigit_not_space str_nat_hd)
  show "\<not> isspace (last (str_int i))"
    by (simp add: str_int_def str_nat_not_Nil isdigit_not_space str_nat_last)
qed

lemma isdigit_not_sign: "isdigit c \<Longrightarrow> c \<noteq> CHR ''-'' \<and> c \<noteq> CHR ''+''"
  by (auto simp: isdigit_def)

lemma py_int_str_int:
  assumes "length (str_nat (nat \<bar>i\<bar>)) \<le> 4300"
  shows "py_int (str_int i) = Some i"
proof (cases "i < 0")
  case True
  then have "nat \<bar>i\<bar> = nat (- i)" by simp
  with assms have "parse_nat (str_nat (nat (- i))) = Some (nat (- i))"
    by (simp add: parse_nat_str_nat)
  with True show ?thesis
    using strip_str_int [of i] by (simp add: py_int_def str_int_def)
next
  case False
  then have n: "nat \<bar>i\<bar> = nat i" by simp
  obtain c cs where s: "str_nat (nat i) = c # cs"
    using str_nat_not_Nil by (cases "str_nat (nat i)") auto
  have d: "isdigit c" using str_nat_digits [of "nat i"] s by simp
  have "parse_nat (c # cs) = Some (nat i)"
    using parse_nat_str_nat [of "nat i"] assms n s by simp
  with False s d show ?thesis
    using strip_str_int [of i] isdigit_not_sign [OF d] by (simp add: py_int_def str_int_def)
qed

lemma split_str_not_Nil: "split_str c s \<noteq> []"
  by (induction s) (auto split: list.splits)

lemma split_str_absent: "c \<notin> set a \<Longrightarrow> split_str c a = [a]"
  by (induction a) auto

lemma split_str_first: "c \<notin> set a \<Longrightarrow> split_str c (a @ c # r) = a # split_str c r"
  by (induction a) auto

lemma str_int_no_colon: "CHR '':'' \<notin> set (str_int i)"
proof -
  have "\<not> isdigit CHR '':''" by (simp add: isdigit_def)
  then have "CHR '':'' \<notin> set (str_nat n)" for n using str_nat_digits [of n] by blast
  then show ?thesis by (simp add: str_int_def)
qed

lemma strip_leading_space: "strip (CHR '' '' # s) = strip s"
  by (simp add: strip_def isspace_def)

lemma score_of_line_valid:
  assumes "CHR '':'' \<notin> set label" and "length (str_nat (nat \<bar>n\<bar>)) \<le> 4300"
  shows "score_of_line (label @ '': '' @ str_int n) = Inr n"
proof -
  have "split_str CHR '':'' (label @ CHR '':'' # (CHR '' '' # str_int n))
      = label # split_str CHR '':'' (CHR '' '' # str_int n)"
    by (rule split_str_first [OF assms(1)])
  moreover have "split_str CHR '':'' (CHR '' '' # str_int n) = [CHR '' '' # str_int n]"
    by (rule split_str_absent) (simp add: str_int_no_colon)
  ultimately show ?thesis
    by (simp add: score_of_line_def strip_leading_space strip_str_int py_int_str_int [OF assms(2)])
qed

lemma extract_score_found:
  assumes "find (prefix pre) lines = Some l" and "pre \<noteq> []"
  shows "extract_score lines pre =
           (case score_of_line l of Inl IndexError \<Rightarrow> Inr 0 | Inl ValueError \<Rightarrow> Inr 0 | Inl e \<Rightarrow> Inl e | Inr n \<Rightarrow> Inr n)"
proof -
  from assms(1) have "prefix pre l" by (auto simp: find_Some_iff)
  with assms(2) have "l \<noteq> []" by auto
  with assms(1) show ?thesis by (simp add: extract_score_def extract_score_try_def)
qed

lemma score_of_line_error: "score_of_line l \<noteq> Inl OtherError"
  by (simp add: score_of_line_def split: list.splits option.splits)

lemma extract_score_never_raises: "\<exists>n. extract_score lines pre = Inr n"
  using score_of_line_error
  by (cases "score_of_line (the (find (prefix pre) lines))")
     (auto simp: extract_score_def extract_score_try_def Let_def split: option.splits py_error.splits sum.splits)

section \<open>The scoring parser\<close>

lemma parse_try_Inr:
  "parse_try text =
     Inr \<lparr>accuracy = projr (extract_score (split_str CHR ''\<newline>'' text) ''Accuracy score''),
          completeness = projr (extract_score (split_str CHR ''\<newline>'' text) ''Completeness score''),
          relevance = projr (extract_score (split_str CHR ''\<newline>'' text) ''Relevance score''),
          justification = extract_justification (split_str CHR ''\<newline>'' text)\<rparr>"
proof -
  let ?ls = "split_str CHR ''\<newline>'' text"
  obtain a where a: "extract_score ?ls ''Accuracy score'' = Inr a"
    using extract_score_never_raises by blast
  obtain c where c: "extract_score ?ls ''Completeness score'' = Inr c"
    using extract_score_never_raises by blast
  obtain r where r: "extract_score ?ls ''Relevance score'' = Inr r"
    using extract_score_never_raises by blast
  show ?thesis by (simp add: parse_try_def a c r)
qed

lemma parse_result_eq:
  "parse_result text =
     \<lparr>accuracy = projr (extract_score (split_str CHR ''\<newline>'' text) ''Accuracy score''),
      completeness = projr (extract_score (split_str CHR ''\<newline>'' text) ''Completeness score''),
      relevance = projr (extract_score (split_str CHR ''\<newline>'' text) ''Relevance score''),
      justification = extract_justification (split_str CHR ''\<newline>'' text)\<rparr>"
  by (simp add: parse_result_def parse_try_Inr)

lemma extract_score_cases:
  "(find (prefix label) lines = None \<longrightarrow> extract_score lines label = Inr 0) \<and>
   (\<forall>l. find (prefix label) lines = Some l \<longrightarrow>
      (\<forall>e. score_of_line l = Inl e \<longrightarrow> extract_score lines label = Inr 0) \<and>
      (\<forall>n. score_of_line l = Inr n \<longrightarrow> extract_score lines label = Inr n))"
proof (intro conjI allI impI)
  assume "find (prefix label) lines = None"
  then show "extract_score lines label = Inr 0"
    by (simp add: extract_score_def extract_score_try_def)
next
  fix l e assume f: "find (prefix label) lines = Some l" and s: "score_of_line l = Inl e"
  from s score_of_line_error [of l] have "e = IndexError \<or> e = ValueError" by (cases e) auto
  with f s show "extract_score lines label = Inr 0"
    by (auto simp: extract_score_def extract_score_try_def)
next
  fix l n assume f: "find (prefix label) lines = Some l" and s: "score_of_line l = Inr n"
  have "l = [] \<Longrightarrow> score_of_line l = Inl IndexError" by (simp add: score_of_line_def)
  with s have "l \<noteq> []" by auto
  with f s show "extract_score lines label = Inr n"
    by (simp add: extract_score_def extract_score_try_def)
qed


lemmas py_eval = parse_result_def parse_try_def extract_score_def extract_score_try_def
  score_of_line_def extract_justification_def py_int_def strip_def isspace_def parse_nat_def
  isdigit_def digit_val_def spec_justification_def strip_prefix_def str_int_def
  int_max_str_digits_def

lemma digit_char_eval:
  "digit_char 0 = CHR ''0''" "digit_char 1 = CHR ''1''" "digit_char 2 = CHR ''2''"
  "digit_char 3 = CHR ''3''" "digit_char 4 = CHR ''4''" "digit_char 5 = CHR ''5''"
  "digit_char 6 = CHR ''6''" "digit_char 7 = CHR ''7''" "digit_char 8 = CHR ''8''"
  "digit_char 9 = CHR ''9''" "digit_char (Suc 0) = CHR ''1''"
  by code_simp+

lemma str_nat_small: "n < 10 \<Longrightarrow> str_nat n = [digit_char n]"
  by (subst str_nat.simps) simp

text \<open>
  Claim C6.  Score parsing never raises: on every text the parsing body returns a record
  (\<open>parse_try\<close> is never an error), and for each of the three axes the first line that
  starts with the axis label decides the value: with no such line the axis is 0, with a
  line whose integer conversion fails the axis is 0, and otherwise it is the converted
  integer.
\<close>

theorem score_parsing_never_raises:
  "\<exists>ev. parse_try text = Inr ev \<and> parse_result text = ev \<and>
     (\<forall>label v. (label, v) \<in> {(''Accuracy score'', accuracy ev),
                               (''Completeness score'', completeness ev),
                               (''Relevance score'', relevance ev)} \<longrightarrow>
        (find (prefix label) (split_str CHR ''\<newline>'' text) = None \<longrightarrow> v = 0) \<and>
        (\<forall>l. find (prefix label) (split_str CHR ''\<newline>'' text) = Some l \<longrightarrow>
           (\<forall>e. score_of_line l = Inl e \<longrightarrow> v = 0) \<and>
           (\<forall>n. score_of_line l = Inr n \<longrightarrow> v = n)))"
proof -
  let ?ls = "split_str CHR ''\<newline>'' text"
  let ?ev = "parse_result text"
  let ?ok = "\<lambda>label v.
        (find (prefix label) ?ls = None \<longrightarrow> v = 0) \<and>
        (\<forall>l. find (prefix label) ?ls = Some l \<longrightarrow>
           (\<forall>e. score_of_line l = Inl e \<longrightarrow> v = 0) \<and>
           (\<forall>n. score_of_line l = Inr n \<longrightarrow> v = n))"
  have ax: "?ok label (projr (extract_score ?ls label))" for label
    using extract_score_cases [of label ?ls] by simp
  have a: "accuracy ?ev = projr (extract_score ?ls ''Accuracy score'')"
    by (simp add: parse_result_eq)
  have c: "completeness ?ev = projr (extract_score ?ls ''Completeness score'')"
    by (simp add: parse_result_eq)
  have r: "relevance ?ev = projr (extract_score ?ls ''Relevance score'')"
    by (simp add: parse_result_eq)
  have 1: "parse_try text = Inr ?ev"
    by (simp add: parse_try_Inr parse_result_eq)
  have 2: "?ok label v"
    if "(label, v) \<in> {(''Accuracy score'', accuracy ?ev),
                       (''Completeness score'', completeness ?ev),
                       (''Relevance score'', relevance ?ev)}" for label v
  proof -
    from that consider "label = ''Accuracy score''" "v = accuracy ?ev"
      | "label = ''Completeness score''" "v = completeness ?ev"
      | "label = ''Relevance score''" "v = relevance ?ev"
      by auto
    then show ?thesis
    proof cases
      case 1
      with ax [of "''Accuracy score''"] a show ?thesis by simp
    next
      case 2
      with ax [of "''Completeness score''"] c show ?thesis by simp
    next
      case 3
      with ax [of "''Relevance score''"] r show ?thesis by simp
    qed
  qed
  from 1 2 show ?thesis by blast
qed

theorem score_parsing_never_raises_witness:
  "find (prefix ''Completeness score'')
       (split_str CHR ''\<newline>'' ''Accuracy score: x\<newline>Relevance score: 7'') = None \<and>
   find (prefix ''Accuracy score'')
       (split_str CHR ''\<newline>'' ''Accuracy score: x\<newline>Relevance score: 7'')
     = Some ''Accuracy score: x'' \<and>
   score_of_line ''Accuracy score: x'' = Inl ValueError \<and>
   parse_try ''Accuracy score: x\<newline>Relevance score: 7''
     = Inr \<lparr>accuracy = 0, completeness = 0, relevance = 7, justification = []\<rparr>"
proof -
  let ?t = "''Accuracy score: x\<newline>Relevance score: 7''"
  have 1: "find (prefix ''Completeness score'') (split_str CHR ''\<newline>'' ?t) = None"
    by simp
  have 2: "find (prefix ''Accuracy score'') (split_str CHR ''\<newline>'' ?t)
             = Some ''Accuracy score: x''"
    by simp
  have 3: "score_of_line ''Accuracy score: x'' = Inl ValueError"
    by (simp add: py_eval)
  have 4: "find (prefix ''Relevance score'') (split_str CHR ''\<newline>'' ?t)
             = Some ''Relevance score: 7''"
    by simp
  have 5: "score_of_line ''Relevance score: 7'' = Inr 7"
    by (simp add: py_eval)
  have 6: "extract_justification (split_str CHR ''\<newline>'' ?t) = []"
    by (simp add: extract_justification_def)
  from score_parsing_never_raises [of ?t] obtain ev where
    all: "parse_try ?t = Inr ev \<and> parse_result ?t = ev \<and>
     (\<forall>label v. (label, v) \<in> {(''Accuracy score'', accuracy ev),
                               (''Completeness score'', completeness ev),
                               (''Relevance score'', relevance ev)} \<longrightarrow>
        (find (prefix label) (split_str CHR ''\<newline>'' ?t) = None \<longrightarrow> v = 0) \<and>
        (\<forall>l. find (prefix label) (split_str CHR ''\<newline>'' ?t) = Some l \<longrightarrow>
           (\<forall>e. score_of_line l = Inl e \<longrightarrow> v = 0) \<and>
           (\<forall>n. score_of_line l = Inr n \<longrightarrow> v = n)))" ..
  note ev = all [THEN conjunct1] all [THEN conjunct2, THEN conjunct1]
  note ax = all [THEN conjunct2, THEN conjunct2, THEN spec, THEN spec, THEN mp]
  have a: "accuracy ev = 0"
    using ax [of "''Accuracy score''" "accuracy ev"] 2 3 by simp
  have c: "completeness ev = 0"
    using ax [of "''Completeness score''" "completeness ev"] 1 by simp
  have r: "relevance ev = 7"
    using ax [of "''Relevance score''" "relevance ev"] 4 5 by simp
  have j: "justification ev = []"
    using ev(2) [symmetric] 6 by (simp add: parse_result_eq)
  have "ev = \<lparr>accuracy = 0, completeness = 0, relevance = 7, justification = []\<rparr>"
    using a c r j by (cases ev) simp
  with ev 1 2 3 show ?thesis by simp
qed

subsection \<open>Removing the justification label\<close>

lemma replace_pieces:
  assumes "c \<notin> set cs" and "\<forall>p \<in> set ps. \<not> sublist (c # cs) p"
  shows "replace_str (c # cs) [] (join (c # cs) ps) = concat ps"
  using assms(2)
proof (induction ps)
  case Nil
  show ?case by simp
next
  case (Cons x ps)
  have nx: "\<not> sublist (c # cs) x" using Cons.prems by simp
  show ?case
  proof (cases ps)
    case Nil
    have "replace_str (c # cs) [] x = x"
      by (rule replace_str_absent [OF _ nx]) simp
    with Nil show ?thesis by (simp del: replace_str.simps)
  next
    case (Cons y ys)
    let ?r = "join (c # cs) ps"
    have j: "join (c # cs) (x # ps) = x @ ((c # cs) @ ?r)" using Cons by simp
    have "replace_str (c # cs) [] (x @ ((c # cs) @ ?r)) = x @ replace_str (c # cs) [] ((c # cs) @ ?r)"
    proof (rule replace_str_skip)
      fix u v assume x: "x = u @ v" and v: "v \<noteq> []"
      show "\<not> prefix (c # cs) (v @ (c # cs) @ ?r)"
      proof
        assume "prefix (c # cs) (v @ (c # cs) @ ?r)"
        from no_self_overlap [OF this assms(1) v] have "prefix (c # cs) v" .
        then obtain w where "v = (c # cs) @ w" by (auto simp: prefix_def)
        with x have "x = u @ (c # cs) @ w" by simp
        then have "sublist (c # cs) x" unfolding sublist_def by blast
        with nx show False by simp
      qed
    qed simp
    also have "replace_str (c # cs) [] ((c # cs) @ ?r) = replace_str (c # cs) [] ?r"
      using replace_str_at [of "c # cs" "[]" ?r] by simp
    also have "\<dots> = concat ps" using Cons.IH Cons.prems by simp
    finally show ?thesis unfolding j by simp
  qed
qed

text \<open>
  Claim C10.  Every occurrence of \<open>Justification:\<close> is removed from the joined
  justification lines, not only a leading one: when the joined lines are the pieces
  \<open>pieces\<close> separated by \<open>Justification:\<close> (no piece containing it), the returned
  justification is the trimmed concatenation of the pieces.
\<close>

theorem justification_every_occurrence_removed:
  assumes "join '' '' (filter (prefix ''Justification'') (split_str CHR ''\<newline>'' text))
             = join ''Justification:'' pieces"
    and "\<forall>p \<in> set pieces. \<not> sublist ''Justification:'' p"
  shows "justification (parse_result text) = strip (concat pieces)"
proof -
  let ?js = "filter (prefix ''Justification'') (split_str CHR ''\<newline>'' text)"
  have "replace_str ''Justification:'' [] (join ''Justification:'' pieces) = concat pieces"
    using assms(2) by (intro replace_pieces) simp_all
  then have r: "replace_str ''Justification:'' [] (join '' '' ?js) = concat pieces"
    using assms(1) by simp
  show ?thesis
  proof (cases "?js = []")
    case True
    with r have "concat pieces = []" by simp
    then have "strip (concat pieces) = []" by (simp only: strip_def) simp
    with True show ?thesis by (simp add: parse_result_eq extract_justification_def)
  next
    case False
    with r show ?thesis by (simp add: parse_result_eq extract_justification_def)
  qed
qed

theorem justification_every_occurrence_removed_witness:
  "justification (parse_result ''Relevance score: 5\<newline>Justification: a Justification: b'') = ''a  b''"
proof -
  let ?t = "''Relevance score: 5\<newline>Justification: a Justification: b''"
  have 1: "join '' '' (filter (prefix ''Justification'') (split_str CHR ''\<newline>'' ?t))
             = join ''Justification:'' [[], '' a '', '' b'']"
    by simp
  have 2: "\<forall>p \<in> set [[], '' a '', '' b'']. \<not> sublist ''Justification:'' p"
    by (simp add: sublist_code)
  have 3: "strip (concat [[], '' a '', '' b'']) = ''a  b''"
    by (simp add: strip_def isspace_def)
  from justification_every_occurrence_removed [OF 1 2] 3 show ?thesis by simp
qed

lemma sublist_suffix_prefix:
  "sublist p a \<longleftrightarrow> (\<exists>u v. a = u @ v \<and> prefix p v)"
  by (auto simp: sublist_def prefix_def)

lemma replace_str_before_char:
  assumes "pat \<noteq> []" and "\<not> sublist pat a" and "c \<notin> set pat"
  shows "replace_str pat new (a @ c # r) = a @ c # replace_str pat new r"
proof -
  have "replace_str pat new ((a @ [c]) @ r) = (a @ [c]) @ replace_str pat new r"
  proof (rule replace_str_skip [OF assms(1)])
    fix u v assume uv: "a @ [c] = u @ v" and v: "v \<noteq> []"
    then obtain v' where v': "v = v' @ [c]" and a: "a = u @ v'"
      by (cases v rule: rev_cases) auto
    show "\<not> prefix pat (v @ r)"
    proof
      assume "prefix pat (v @ r)"
      then have "prefix pat (v' @ c # r)" by (simp add: v')
      from absent_char_no_straddle [OF this assms(3)] have "prefix pat v'" .
      with a assms(2) show False by (auto simp: sublist_suffix_prefix)
    qed
  qed
  then show ?thesis by simp
qed

lemma replace_line_last:
  assumes "pat \<noteq> []" and "\<not> sublist pat (tl l)"
  shows "replace_str pat [] l = strip_prefix pat l"
proof (cases "prefix pat l")
  case True
  then obtain b where l: "l = pat @ b" by (auto simp: prefix_def)
  obtain c cs where p: "pat = c # cs" using assms(1) by (cases pat) auto
  have "\<not> sublist pat b"
  proof
    assume "sublist pat b"
    then have "sublist pat (cs @ b)" by (auto simp: sublist_def) (metis append.assoc)
    with assms(2) l p show False by simp
  qed
  then have "replace_str pat [] b = b" by (rule replace_str_absent [OF assms(1)])
  with True l show ?thesis
    using replace_str_at [OF assms(1), of "[]" b] by (simp add: strip_prefix_def)
next
  case False
  have "\<not> sublist pat l"
  proof (cases l)
    case Nil
    with assms(1) show ?thesis by simp
  next
    case (Cons x xs)
    with False assms(2) show ?thesis by (simp add: sublist_Cons_right)
  qed
  with False show ?thesis by (simp add: replace_str_absent [OF assms(1)] strip_prefix_def)
qed

lemma replace_line_more:
  assumes "pat \<noteq> []" and "\<not> sublist pat (tl l)" and "c \<notin> set pat"
  shows "replace_str pat [] (l @ c # r) = strip_prefix pat l @ c # replace_str pat [] r"
proof (cases "prefix pat l")
  case True
  then obtain b where l: "l = pat @ b" by (auto simp: prefix_def)
  obtain d ds where p: "pat = d # ds" using assms(1) by (cases pat) auto
  have nb: "\<not> sublist pat b"
  proof
    assume "sublist pat b"
    then have "sublist pat (ds @ b)" by (auto simp: sublist_def) (metis append.assoc)
    with assms(2) l p show False by simp
  qed
  have "replace_str pat [] (pat @ (b @ c # r)) = replace_str pat [] (b @ c # r)"
    using replace_str_at [OF assms(1), of "[]" "b @ c # r"] by simp
  also have "\<dots> = b @ c # replace_str pat [] r"
    by (rule replace_str_before_char [OF assms(1) nb assms(3)])
  finally show ?thesis using True l by (simp add: strip_prefix_def)
next
  case False
  have "\<not> sublist pat l"
  proof (cases l)
    case Nil
    with assms(1) show ?thesis by simp
  next
    case (Cons x xs)
    with False assms(2) show ?thesis by (simp add: sublist_Cons_right)
  qed
  from replace_str_before_char [OF assms(1) this assms(3)] False
  show ?thesis by (simp add: strip_prefix_def)
qed

lemma replace_joined_lines:
  assumes "pat \<noteq> []" and "CHR '' '' \<notin> set pat"
    and "\<forall>l \<in> set js. \<not> sublist pat (tl l)"
  shows "replace_str pat [] (join '' '' js) = join '' '' (map (strip_prefix pat) js)"
  using assms(3)
proof (induction js)
  case Nil
  from assms(1) show ?case by simp
next
  case (Cons l js)
  show ?case
  proof (cases js)
    case Nil
    with Cons.prems show ?thesis
      using replace_line_last [OF assms(1), of l] by (simp del: replace_str.simps)
  next
    case (Cons l' ls)
    have "replace_str pat [] (l @ CHR '' '' # join '' '' js)
        = strip_prefix pat l @ CHR '' '' # replace_str pat [] (join '' '' js)"
      using Cons.prems by (intro replace_line_more [OF assms(1) _ assms(2)]) simp
    with Cons Cons.IH Cons.prems show ?thesis by (simp del: replace_str.simps)
  qed
qed

lemma extract_justification_refines:
  assumes "\<forall>l \<in> set lines. prefix ''Justification'' l \<longrightarrow> \<not> sublist ''Justification:'' (tl l)"
  shows "extract_justification lines = spec_justification lines"
proof -
  let ?js = "filter (prefix ''Justification'') lines"
  have "\<forall>l \<in> set ?js. \<not> sublist ''Justification:'' (tl l)" using assms by simp
  then have r: "replace_str ''Justification:'' [] (join '' '' ?js)
      = join '' '' (map (strip_prefix ''Justification:'') ?js)"
    by (intro replace_joined_lines) simp_all
  show ?thesis
  proof (cases "?js = []")
    case True
    have "strip [] = []" by (simp add: strip_def)
    with True show ?thesis by (simp add: extract_justification_def spec_justification_def)
  next
    case False
    with r show ?thesis by (simp add: extract_justification_def spec_justification_def)
  qed
qed

text \<open>
  Claim C5, as the code has it.  For each axis, when the first line starting with the
  axis label is \<open>Label score: N\<close>, with \<open>N\<close> written in at most 4300 digits (the limit of
  \<open>int\<close>), the parser returns exactly \<open>N\<close> for that axis.  When no line beginning with
  \<open>Justification\<close> contains \<open>Justification:\<close> after its first character, the
  justification is the one the specification words: those lines, each without its leading
  \<open>Justification:\<close>, joined by a single space and trimmed.
\<close>

theorem parse_valid_response:
  "(find (prefix ''Accuracy score'') (split_str CHR ''\<newline>'' text)
        = Some (''Accuracy score: '' @ str_int a)
      \<and> length (str_nat (nat \<bar>a\<bar>)) \<le> 4300
      \<longrightarrow> accuracy (parse_result text) = a)
   \<and> (find (prefix ''Completeness score'') (split_str CHR ''\<newline>'' text)
        = Some (''Completeness score: '' @ str_int c)
      \<and> length (str_nat (nat \<bar>c\<bar>)) \<le> 4300
      \<longrightarrow> completeness (parse_result text) = c)
   \<and> (find (prefix ''Relevance score'') (split_str CHR ''\<newline>'' text)
        = Some (''Relevance score: '' @ str_int r)
      \<and> length (str_nat (nat \<bar>r\<bar>)) \<le> 4300
      \<longrightarrow> relevance (parse_result text) = r)
   \<and> ((\<forall>l \<in> set (split_str CHR ''\<newline>'' text).
           prefix ''Justification'' l \<longrightarrow> \<not> sublist ''Justification:'' (tl l))
      \<longrightarrow> justification (parse_result text)
            = spec_justification (split_str CHR ''\<newline>'' text))"
proof (intro conjI impI)
  let ?ls = "split_str CHR ''\<newline>'' text"
  {
    assume h: "find (prefix ''Accuracy score'') ?ls = Some (''Accuracy score: '' @ str_int a)
                 \<and> length (str_nat (nat \<bar>a\<bar>)) \<le> 4300"
    have "score_of_line (''Accuracy score'' @ '': '' @ str_int a) = Inr a"
      using h by (intro score_of_line_valid) simp_all
    with h have "extract_score ?ls ''Accuracy score'' = Inr a"
      using extract_score_cases [of "''Accuracy score''" ?ls] by simp
    then show "accuracy (parse_result text) = a" by (simp add: parse_result_eq)
  }
  {
    assume h: "find (prefix ''Completeness score'') ?ls = Some (''Completeness score: '' @ str_int c)
                 \<and> length (str_nat (nat \<bar>c\<bar>)) \<le> 4300"
    have "score_of_line (''Completeness score'' @ '': '' @ str_int c) = Inr c"
      using h by (intro score_of_line_valid) simp_all
    with h have "extract_score ?ls ''Completeness score'' = Inr c"
      using extract_score_cases [of "''Completeness score''" ?ls] by simp
    then show "completeness (parse_result text) = c" by (simp add: parse_result_eq)
  }
  {
    assume h: "find (prefix ''Relevance score'') ?ls = Some (''Relevance score: '' @ str_int r)
                 \<and> length (str_nat (nat \<bar>r\<bar>)) \<le> 4300"
    have "score_of_line (''Relevance score'' @ '': '' @ str_int r) = Inr r"
      using h by (intro score_of_line_valid) simp_all
    with h have "extract_score ?ls ''Relevance score'' = Inr r"
      using extract_score_cases [of "''Relevance score''" ?ls] by simp
    then show "relevance (parse_result text) = r" by (simp add: parse_result_eq)
  }
  {
    assume "\<forall>l \<in> set ?ls. prefix ''Justification'' l \<longrightarrow> \<not> sublist ''Justification:'' (tl l)"
    then have "extract_justification ?ls = spec_justification ?ls"
      by (rule extract_justification_refines)
    then show "justification (parse_result text) = spec_justification ?ls"
      by (simp add: parse_result_eq)
  }
qed

theorem parse_valid_response_witness:
  "parse_result ''Accuracy score: 9\<newline>Completeness score: 8\<newline>Relevance score: 10\<newline>Justification: close match''
     = \<lparr>accuracy = 9, completeness = 8, relevance = 10, justification = ''close match''\<rparr>"
proof -
  let ?t = "''Accuracy score: 9\<newline>Completeness score: 8\<newline>Relevance score: 10\<newline>Justification: close match''"
  have s9: "str_int 9 = ''9''" "str_nat 9 = ''9''"
    by (simp_all add: str_int_def str_nat_small digit_char_eval)
  have s8: "str_int 8 = ''8''" "str_nat 8 = ''8''"
    by (simp_all add: str_int_def str_nat_small digit_char_eval)
  have s10: "str_int 10 = ''10''" "str_nat 10 = ''10''"
    by (simp_all add: str_int_def digit_char_eval str_nat.simps [of 10] str_nat_small)
  have 1: "find (prefix ''Accuracy score'') (split_str CHR ''\<newline>'' ?t)
             = Some (''Accuracy score: '' @ str_int 9) \<and> length (str_nat (nat \<bar>9\<bar>)) \<le> 4300"
    by (simp add: s9)
  have 2: "find (prefix ''Completeness score'') (split_str CHR ''\<newline>'' ?t)
             = Some (''Completeness score: '' @ str_int 8) \<and> length (str_nat (nat \<bar>8\<bar>)) \<le> 4300"
    by (simp add: s8)
  have 3: "find (prefix ''Relevance score'') (split_str CHR ''\<newline>'' ?t)
             = Some (''Relevance score: '' @ str_int 10) \<and> length (str_nat (nat \<bar>10\<bar>)) \<le> 4300"
    by (simp add: s10)
  have 4: "\<forall>l \<in> set (split_str CHR ''\<newline>'' ?t).
           prefix ''Justification'' l \<longrightarrow> \<not> sublist ''Justification:'' (tl l)"
    by (simp add: sublist_code)
  have 5: "spec_justification (split_str CHR ''\<newline>'' ?t) = ''close match''"
    by (simp add: spec_justification_def strip_prefix_def strip_def isspace_def)
  note t = parse_valid_response [of ?t 9 8 10]
  note a = t [THEN conjunct1, THEN mp, OF 1]
  note c = t [THEN conjunct2, THEN conjunct1, THEN mp, OF 2]
  note r = t [THEN conjunct2, THEN conjunct2, THEN conjunct1, THEN mp, OF 3]
  note j = t [THEN conjunct2, THEN conjunct2, THEN conjunct2, THEN mp, OF 4]
  from a c r j 5 show ?thesis
    by (cases "parse_result ?t") simp
qed

text \<open>
  As stated, C5 fails on a response that has a line \<open>Accuracy score: 5\<close> after an
  earlier line starting with the same label, and whose justification body repeats
  \<open>Justification:\<close>: the accuracy is 0, and the interior label is deleted too.
\<close>

theorem parse_valid_response_counterexample:
  "''Accuracy score: '' @ str_int 5 \<in> set (split_str CHR ''\<newline>''
      ''Accuracy score: x\<newline>Accuracy score: 5\<newline>Completeness score: 5\<newline>Relevance score: 5\<newline>Justification: a Justification: b'')
   \<and> accuracy (parse_result
      ''Accuracy score: x\<newline>Accuracy score: 5\<newline>Completeness score: 5\<newline>Relevance score: 5\<newline>Justification: a Justification: b'') = 0
   \<and> justification (parse_result
      ''Accuracy score: x\<newline>Accuracy score: 5\<newline>Completeness score: 5\<newline>Relevance score: 5\<newline>Justification: a Justification: b'') = ''a  b''
   \<and> spec_justification (split_str CHR ''\<newline>''
      ''Accuracy score: x\<newline>Accuracy score: 5\<newline>Completeness score: 5\<newline>Relevance score: 5\<newline>Justification: a Justification: b'') = ''a Justification: b''"
  by (simp add: py_eval str_nat_small digit_char_eval)

section \<open>The judge invoker\<close>

lemma retry_loop_profile_step:
  assumes "retries < max_retries"
    and "bedrock (invocations w) model_id prompt = Inl msg"
    and "is_inference_profile_error msg"
  shows "retry_loop bedrock prompt max_retries retries model_id w =
         retry_loop bedrock prompt max_retries (retries + 1) BEDROCK_FALLBACK_MODEL
           (w\<lparr>invocations := invocations w @ [(model_id, prompt)],
              warnings := warnings w @ [FallbackWarning]\<rparr>)"
  using assms by (subst retry_loop.simps) (simp add: Let_def)

lemma retry_loop_success:
  assumes "retries < max_retries"
    and "bedrock (invocations w) model_id prompt = Inr answer"
  shows "retry_loop bedrock prompt max_retries retries model_id w =
         (Inr (Some answer), w\<lparr>invocations := invocations w @ [(model_id, prompt)]\<rparr>)"
  using assms by (subst retry_loop.simps) (simp add: Let_def)

lemma fallback_then_success:
  assumes "bedrock (invocations w) BEDROCK_DEFAULT_MODEL (prompt_of prompt_inputs) = Inl msg"
    and "is_inference_profile_error msg"
    and "bedrock (invocations w @ [(BEDROCK_DEFAULT_MODEL, prompt_of prompt_inputs)])
           BEDROCK_FALLBACK_MODEL (prompt_of prompt_inputs) = Inr answer"
    and "answer \<noteq> []"
    and "2 \<le> max_retries"
  shows "call_bedrock_model bedrock prompt_inputs max_retries w =
           (parse_result answer,
            w\<lparr>invocations := invocations w @
                 [(BEDROCK_DEFAULT_MODEL, prompt_of prompt_inputs),
                  (BEDROCK_FALLBACK_MODEL, prompt_of prompt_inputs)],
              warnings := warnings w @ [FallbackWarning]\<rparr>)"
proof -
  let ?p = "prompt_of prompt_inputs"
  let ?wa = "w\<lparr>invocations := invocations w @ [(BEDROCK_DEFAULT_MODEL, ?p)],
               warnings := warnings w @ [FallbackWarning]\<rparr>"
  have 1: "retry_loop bedrock ?p max_retries 0 BEDROCK_DEFAULT_MODEL w =
           retry_loop bedrock ?p max_retries (0 + 1) BEDROCK_FALLBACK_MODEL ?wa"
    using assms(1,2,5)
    by (intro retry_loop_profile_step [where msg = msg and w = w]) simp_all
  have 2: "retry_loop bedrock ?p max_retries (0 + 1) BEDROCK_FALLBACK_MODEL ?wa =
           (Inr (Some answer), ?wa\<lparr>invocations := invocations ?wa @ [(BEDROCK_FALLBACK_MODEL, ?p)]\<rparr>)"
    using assms(3,5)
    by (intro retry_loop_success [where answer = answer and w = "?wa"]) simp_all
  show ?thesis
    unfolding call_bedrock_model_def Let_def 1 2 using assms(4) by simp
qed

text \<open>
  Claim C4.  When an invocation fails with a message that names a \<open>ValidationException\<close>
  and an \<open>inference profile\<close>, the loop goes on with the fallback model, with one more
  retry counted and nothing slept.  In particular, with at least two retries allowed, when
  the first attempt fails so and the second returns a non-empty text, there are exactly
  two invocations, the second on the fallback model, no sleep, and the result is the
  parse of the second attempt's text.
\<close>

theorem inference_profile_fallback:
  "(retries < max_retries \<and> bedrock (invocations w) model_id prompt = Inl msg \<and>
    is_inference_profile_error msg \<longrightarrow>
      retry_loop bedrock prompt max_retries retries model_id w =
      retry_loop bedrock prompt max_retries (retries + 1) BEDROCK_FALLBACK_MODEL
        (w\<lparr>invocations := invocations w @ [(model_id, prompt)],
           warnings := warnings w @ [FallbackWarning]\<rparr>))
   \<and>
   (2 \<le> max_retries \<and>
    bedrock (invocations w) BEDROCK_DEFAULT_MODEL (prompt_of prompt_inputs) = Inl failure \<and>
    is_inference_profile_error failure \<and>
    bedrock (invocations w @ [(BEDROCK_DEFAULT_MODEL, prompt_of prompt_inputs)])
      BEDROCK_FALLBACK_MODEL (prompt_of prompt_inputs) = Inr answer \<and>
    answer \<noteq> [] \<longrightarrow>
      call_bedrock_model bedrock prompt_inputs max_retries w =
        (parse_result answer,
         w\<lparr>invocations := invocations w @
              [(BEDROCK_DEFAULT_MODEL, prompt_of prompt_inputs),
               (BEDROCK_FALLBACK_MODEL, prompt_of prompt_inputs)],
           warnings := warnings w @ [FallbackWarning]\<rparr>))"
  using retry_loop_profile_step [of retries max_retries bedrock w model_id prompt msg]
    fallback_then_success [of bedrock w prompt_inputs failure answer max_retries]
  by (intro conjI impI) (elim conjE, assumption)+

lemma models_differ: "BEDROCK_FALLBACK_MODEL \<noteq> BEDROCK_DEFAULT_MODEL"
  by (simp add: BEDROCK_FALLBACK_MODEL_def BEDROCK_DEFAULT_MODEL_def)

lemma profile_error_text_recognised: "is_inference_profile_error profile_error_text"
  by (simp add: is_inference_profile_error_def profile_error_text_def sublist_code)


lemma parse_close_match:
  "parse_result ''Accuracy score: 9\<newline>Completeness score: 8\<newline>Relevance score: 10\<newline>Justification: close match''
     = \<lparr>accuracy = 9, completeness = 8, relevance = 10, justification = ''close match''\<rparr>"
  by (simp add: py_eval)

theorem inference_profile_fallback_witness:
  "call_bedrock_model
     (bedrock_on_fallback_only
        ''Accuracy score: 9\<newline>Completeness score: 8\<newline>Relevance score: 10\<newline>Justification: close match'')
     (build_judging_prompt ''Q1'' ''Paris is the capital of France'' ''Paris is the capital'')
     3 world0
   = (\<lparr>accuracy = 9, completeness = 8, relevance = 10, justification = ''close match''\<rparr>,
      \<lparr>invocations =
         [(BEDROCK_DEFAULT_MODEL,
           prompt_of (build_judging_prompt ''Q1'' ''Paris is the capital of France'' ''Paris is the capital'')),
          (BEDROCK_FALLBACK_MODEL,
           prompt_of (build_judging_prompt ''Q1'' ''Paris is the capital of France'' ''Paris is the capital''))],
       sleeps = [], warnings = [FallbackWarning]\<rparr>)"
proof -
  let ?a = "''Accuracy score: 9\<newline>Completeness score: 8\<newline>Relevance score: 10\<newline>Justification: close match''"
  let ?b = "bedrock_on_fallback_only ?a"
  let ?pi = "build_judging_prompt ''Q1'' ''Paris is the capital of France'' ''Paris is the capital''"
  have 1: "?b (invocations world0) BEDROCK_DEFAULT_MODEL (prompt_of ?pi) = Inl profile_error_text"
    by (simp add: bedrock_on_fallback_only_def)
  have 2: "?b (invocations world0 @ [(BEDROCK_DEFAULT_MODEL, prompt_of ?pi)])
             BEDROCK_FALLBACK_MODEL (prompt_of ?pi) = Inr ?a"
    using models_differ by (simp add: bedrock_on_fallback_only_def)
  have 3: "?a \<noteq> []" by simp
  have 4: "(2::int) \<le> 3" by simp
  have h: "(2::int) \<le> 3 \<and>
      ?b (invocations world0) BEDROCK_DEFAULT_MODEL (prompt_of ?pi) = Inl profile_error_text \<and>
      is_inference_profile_error profile_error_text \<and>
      ?b (invocations world0 @ [(BEDROCK_DEFAULT_MODEL, prompt_of ?pi)])
        BEDROCK_FALLBACK_MODEL (prompt_of ?pi) = Inr ?a \<and>
      ?a \<noteq> []"
    using 1 2 3 4 profile_error_text_recognised by (intro conjI)
  have "call_bedrock_model ?b ?pi 3 world0 =
        (parse_result ?a,
         world0\<lparr>invocations := invocations world0 @
              [(BEDROCK_DEFAULT_MODEL, prompt_of ?pi), (BEDROCK_FALLBACK_MODEL, prompt_of ?pi)],
           warnings := warnings world0 @ [FallbackWarning]\<rparr>)"
    by (rule inference_profile_fallback [where bedrock = "?b" and w = world0
          and prompt_inputs = "?pi" and max_retries = 3 and answer = "?a"
          and failure = profile_error_text, THEN conjunct2, THEN mp, OF h])
  then show ?thesis by (simp add: parse_close_match world0_def)
qed

section \<open>The judging stage\<close>


















section \<open>The generation stage\<close>

lemma store_outcome_eq:
  "store_outcome outcome i xs = xs[i := (xs ! i)\<lparr>Generated_Answer := stored outcome i\<rparr>]"
  by (simp add: store_outcome_def stored_def split: sum.splits prod.splits)

lemma length_store_outcome [simp]: "length (store_outcome outcome i xs) = length xs"
  by (simp add: store_outcome_eq)

lemma length_collect_results [simp]: "length (collect_results outcome order xs) = length xs"
  unfolding collect_results_def by (induction order arbitrary: xs) simp_all

lemma collect_results_nth:
  assumes "j < length xs"
  shows "collect_results outcome order xs ! j =
           (if j \<in> set order then (xs ! j)\<lparr>Generated_Answer := stored outcome j\<rparr> else xs ! j)"
  using assms unfolding collect_results_def
proof (induction order arbitrary: xs)
  case Nil
  show ?case by simp
next
  case (Cons i order)
  let ?ys = "store_outcome outcome i xs"
  have l: "j < length ?ys" using Cons.prems by simp
  have y: "?ys ! j = (if j = i then (xs ! j)\<lparr>Generated_Answer := stored outcome j\<rparr> else xs ! j)"
    using Cons.prems by (simp add: store_outcome_eq)
  from Cons.IH [OF l] y show ?case by auto
qed

lemma set_submitted:
  "set (submitted items) = {i. i < length items \<and> Question (items ! i) \<noteq> Absent}"
  by (auto simp: submitted_def)

text \<open>
  Claim C2, as the code has it.  When the task of a submitted item raises, the loop over
  the completed futures catches it and goes on: whatever the order of completion, the item
  keeps its slot, its \<open>raw_response\<close> is \<open>Error: \<close> followed by the error text and its
  \<open>text_response\<close> is the empty string, and every submitted item whose task returned has
  the pair it returned.
\<close>

theorem failed_task_is_recorded:
  assumes "set order = set (submitted items)"
    and "items \<noteq> []"
    and "process_input_json outcome order (Some items) write_success = (ok, written)"
  shows "length written = length items
    \<and> (\<forall>i < length items. Question (items ! i) \<noteq> Absent \<longrightarrow>
          Question (written ! i) = Question (items ! i)
        \<and> Expected_Answer (written ! i) = Expected_Answer (items ! i)
        \<and> (\<forall>e. outcome i = Inl e \<longrightarrow>
              Generated_Answer (written ! i) = Structured (Some (''Error: '' @ e)) (Some []))
        \<and> (\<forall>raw extracted. outcome i = Inr (raw, extracted) \<longrightarrow>
              Generated_Answer (written ! i) = Structured (Some raw) (Some extracted)))"
proof -
  from assms(2,3) have w: "written = collect_results outcome order items"
    by (simp add: process_input_json_def)
  note s = assms(1)
  show ?thesis
  proof (intro conjI allI impI)
    show "length written = length items" by (simp add: w)
  next
    fix i assume i: "i < length items" and q: "Question (items ! i) \<noteq> Absent"
    then have "i \<in> set order" by (simp add: s set_submitted)
    with i have n: "written ! i = (items ! i)\<lparr>Generated_Answer := stored outcome i\<rparr>"
      by (simp add: w collect_results_nth)
    show "Question (written ! i) = Question (items ! i)" by (simp add: n)
    show "Expected_Answer (written ! i) = Expected_Answer (items ! i)" by (simp add: n)
    show "Generated_Answer (written ! i) = Structured (Some (''Error: '' @ e)) (Some [])"
      if "outcome i = Inl e" for e using that by (simp add: n stored_def)
    show "Generated_Answer (written ! i) = Structured (Some raw) (Some extracted)"
      if "outcome i = Inr (raw, extracted)" for raw extracted using that by (simp add: n stored_def)
  qed
qed

theorem failed_task_is_recorded_witness:
  "Generated_Answer (snd (process_input_json (first_task_raising ''boom'') [1, 0]
      (Some [\<lparr>Question = Str ''Q1'', Expected_Answer = Str ''A1'', Generated_Answer = Missing\<rparr>,
             \<lparr>Question = Str ''Q2'', Expected_Answer = Str ''A2'', Generated_Answer = Missing\<rparr>])
      True) ! 0) = Structured (Some ''Error: boom'') (Some [])
   \<and> Generated_Answer (snd (process_input_json (first_task_raising ''boom'') [1, 0]
      (Some [\<lparr>Question = Str ''Q1'', Expected_Answer = Str ''A1'', Generated_Answer = Missing\<rparr>,
             \<lparr>Question = Str ''Q2'', Expected_Answer = Str ''A2'', Generated_Answer = Missing\<rparr>])
      True) ! 1) = Structured (Some ''raw answer'') (Some ''answer'')"
proof -
  let ?items = "[\<lparr>Question = Str ''Q1'', Expected_Answer = Str ''A1'', Generated_Answer = Missing\<rparr>,
                 \<lparr>Question = Str ''Q2'', Expected_Answer = Str ''A2'', Generated_Answer = Missing\<rparr>]"
  let ?run = "process_input_json (first_task_raising ''boom'') [1, 0] (Some ?items) True"
  have 1: "set [1, 0] = set (submitted ?items)"
    by (auto simp: submitted_def upt_rec)
  have 2: "?items \<noteq> []" by simp
  have 3: "?run = (fst ?run, snd ?run)" by simp
  have o0: "first_task_raising ''boom'' 0 = Inl ''boom''"
    by (simp add: first_task_raising_def)
  have o1: "first_task_raising ''boom'' 1 = Inr (''raw answer'', ''answer'')"
    by (simp add: first_task_raising_def)
  note t = failed_task_is_recorded [OF 1 2 3, THEN conjunct2]
  have q0: "0 < length ?items" "Question (?items ! 0) \<noteq> Absent" by simp_all
  have q1: "1 < length ?items" "Question (?items ! 1) \<noteq> Absent" by simp_all
  note t0 = t [THEN spec, THEN mp, OF q0(1), THEN mp, OF q0(2)]
  note t1 = t [THEN spec, THEN mp, OF q1(1), THEN mp, OF q1(2)]
  note a = t0 [THEN conjunct2, THEN conjunct2, THEN conjunct1, THEN spec, THEN mp, OF o0]
  note b = t1 [THEN conjunct2, THEN conjunct2, THEN conjunct2, THEN spec, THEN spec, THEN mp, OF o1]
  from a b show ?thesis by simp
qed

text \<open>
  As stated, C2 fails: the error text is recorded in \<open>raw_response\<close> only, and
  \<open>text_response\<close> is empty.
\<close>

theorem failed_task_is_recorded_counterexample:
  "raw_response (Generated_Answer (snd (process_input_json (task_raising ''boom'') [0]
      (Some [\<lparr>Question = Str ''Q1'', Expected_Answer = Str ''A1'', Generated_Answer = Missing\<rparr>])
      True) ! 0)) = Some ''Error: boom''
   \<and> text_response (Generated_Answer (snd (process_input_json (task_raising ''boom'') [0]
      (Some [\<lparr>Question = Str ''Q1'', Expected_Answer = Str ''A1'', Generated_Answer = Missing\<rparr>])
      True) ! 0)) = Some []"
  by (simp add: process_input_json_def collect_results_def store_outcome_def task_raising_def)

section \<open>The metrics aggregator\<close>

lemma collect_scores_maps:
  "collect_scores rs =
     (map (\<lambda>r. accuracy (text_response_evaluation r)) (evaluated rs),
      map (\<lambda>r. completeness (text_response_evaluation r)) (evaluated rs),
      map (\<lambda>r. relevance (text_response_evaluation r)) (evaluated rs))"
  by (induction rs) (simp_all add: evaluated_def)

lemma zip_scores:
  "zip (map (\<lambda>r. accuracy (text_response_evaluation r)) es)
     (zip (map (\<lambda>r. completeness (text_response_evaluation r)) es)
          (map (\<lambda>r. relevance (text_response_evaluation r)) es))
   = map scores_of es"
  by (induction es) (simp_all add: scores_of_def)

lemma combined_scores_returns:
  assumes "\<forall>r \<in> set es. \<not> float_overflow (arithmetic_mean r)"
  shows "combined_scores fl (map scores_of es) = Inr (map (\<lambda>r. fl (arithmetic_mean r)) es)"
  using assms
  by (induction es) (simp_all add: scores_of_def true_divide_def arithmetic_mean_def)

lemma combined_scores_result:
  assumes "combined_scores fl (map scores_of es) = Inr ms"
  shows "ms = map (\<lambda>r. fl (arithmetic_mean r)) es
         \<and> (\<forall>r \<in> set es. \<not> float_overflow (arithmetic_mean r))"
  using assms
proof (induction es arbitrary: ms)
  case Nil
  then show ?case by simp
next
  case (Cons e es)
  from Cons.prems obtain m ms' where
    m: "true_divide fl (accuracy (text_response_evaluation e) + completeness (text_response_evaluation e)
          + relevance (text_response_evaluation e)) 3 = Inr m"
    and r: "combined_scores fl (map scores_of es) = Inr ms'" and ms: "ms = m # ms'"
    by (auto simp: scores_of_def [of e] split: sum.splits)
  from m have "\<not> float_overflow (arithmetic_mean e)" "m = fl (arithmetic_mean e)"
    by (auto simp: true_divide_def arithmetic_mean_def split: if_splits)
  with Cons.IH [OF r] ms show ?case by simp
qed

lemma bins_fold_lookup:
  "fold (\<lambda>i b. b(int i \<mapsto> f i)) [0..<n] m k =
     (if 0 \<le> k \<and> k < int n then Some (f (nat k)) else m k)"
proof (induction n arbitrary: k)
  case 0
  show ?case by auto
next
  case (Suc n)
  show ?case
  proof (cases "k = int n")
    case True
    then show ?thesis by simp
  next
    case False
    with Suc show ?thesis by auto
  qed
qed

lemma bins_lookup:
  "bins rnd scores k =
     (if 0 \<le> k \<and> k \<le> 10 then Some (length (filter (\<lambda>s. rnd s = k) scores)) else None)"
proof -
  have "bins rnd scores k =
     (if 0 \<le> k \<and> k < int 11 then Some (length (filter (\<lambda>s. rnd s = int (nat k)) scores)) else None)"
    unfolding bins_def
    using bins_fold_lookup [of "\<lambda>i. length (filter (\<lambda>s. rnd s = int i) scores)" 11 Map.empty k]
    by simp
  then show ?thesis by auto
qed

lemma dom_bins: "dom (bins rnd scores) = {0..10}"
  by (auto simp: dom_def bins_lookup)

lemma py_round_of_int: "py_round (real_of_int n) = n"
  by (simp add: py_round_def)

lemma length_filter_map: "length (filter P (map f xs)) = length (filter (\<lambda>x. P (f x)) xs)"
  by (simp add: filter_map comp_def)

lemma calculate_metrics_unfold:
  assumes "evaluated rs \<noteq> []"
  shows "calculate_metrics lib rs =
     (case stats_of_ints lib (map (\<lambda>r. accuracy (text_response_evaluation r)) (evaluated rs)) of
        Inl e \<Rightarrow> Inl e
      | Inr ma \<Rightarrow>
     (case stats_of_ints lib (map (\<lambda>r. completeness (text_response_evaluation r)) (evaluated rs)) of
        Inl e \<Rightarrow> Inl e
      | Inr mc \<Rightarrow>
     (case stats_of_ints lib (map (\<lambda>r. relevance (text_response_evaluation r)) (evaluated rs)) of
        Inl e \<Rightarrow> Inl e
      | Inr mr \<Rightarrow>
     (case combined_scores (float_of lib) (map scores_of (evaluated rs)) of
        Inl e \<Rightarrow> Inl e
      | Inr combined \<Rightarrow>
     (case stats_of_floats lib combined of
        Inl e \<Rightarrow> Inl e
      | Inr mb \<Rightarrow>
          Inr \<lparr>count = length (evaluated rs),
               metrics = [''accuracy'' \<mapsto> ma, ''completeness'' \<mapsto> mc, ''relevance'' \<mapsto> mr,
                          ''combined'' \<mapsto> mb],
               distribution =
                 [''accuracy'' \<mapsto> bins round_int (map (\<lambda>r. accuracy (text_response_evaluation r)) (evaluated rs)),
                  ''completeness'' \<mapsto> bins round_int (map (\<lambda>r. completeness (text_response_evaluation r)) (evaluated rs)),
                  ''relevance'' \<mapsto> bins round_int (map (\<lambda>r. relevance (text_response_evaluation r)) (evaluated rs)),
                  ''combined'' \<mapsto> bins py_round combined]\<rparr>)))))"
proof -
  from assms have "rs \<noteq> []" by (auto simp: evaluated_def)
  with assms show ?thesis
    by (simp add: calculate_metrics_def collect_scores_maps zip_scores cong: sum.case_cong)
qed

lemma calculate_metrics_returns:
  assumes "evaluated rs \<noteq> []"
    and "\<forall>r \<in> set (evaluated rs). \<not> float_overflow (arithmetic_mean r)"
    and "stats_of_ints lib (map (\<lambda>r. accuracy (text_response_evaluation r)) (evaluated rs)) = Inr ma"
    and "stats_of_ints lib (map (\<lambda>r. completeness (text_response_evaluation r)) (evaluated rs)) = Inr mc"
    and "stats_of_ints lib (map (\<lambda>r. relevance (text_response_evaluation r)) (evaluated rs)) = Inr mr"
    and "stats_of_floats lib (map (\<lambda>r. float_of lib (arithmetic_mean r)) (evaluated rs)) = Inr mb"
  shows "\<exists>res. calculate_metrics lib rs = Inr res"
  using assms(3-6)
  by (simp add: calculate_metrics_unfold [OF assms(1)] combined_scores_returns [OF assms(2)])

lemma calculate_metrics_result:
  assumes "evaluated rs \<noteq> []" and "calculate_metrics lib rs = Inr res"
  shows "combined_scores (float_of lib) (map scores_of (evaluated rs))
           = Inr (map (\<lambda>r. float_of lib (arithmetic_mean r)) (evaluated rs))
    \<and> count res = length (evaluated rs)
    \<and> distribution res =
         [''accuracy'' \<mapsto> bins round_int (map (\<lambda>r. accuracy (text_response_evaluation r)) (evaluated rs)),
          ''completeness'' \<mapsto> bins round_int (map (\<lambda>r. completeness (text_response_evaluation r)) (evaluated rs)),
          ''relevance'' \<mapsto> bins round_int (map (\<lambda>r. relevance (text_response_evaluation r)) (evaluated rs)),
          ''combined'' \<mapsto> bins py_round (map (\<lambda>r. float_of lib (arithmetic_mean r)) (evaluated rs))]"
proof -
  from assms(2) obtain combined where
    c: "combined_scores (float_of lib) (map scores_of (evaluated rs)) = Inr combined"
    and cnt: "count res = length (evaluated rs)"
    and d: "distribution res =
         [''accuracy'' \<mapsto> bins round_int (map (\<lambda>r. accuracy (text_response_evaluation r)) (evaluated rs)),
          ''completeness'' \<mapsto> bins round_int (map (\<lambda>r. completeness (text_response_evaluation r)) (evaluated rs)),
          ''relevance'' \<mapsto> bins round_int (map (\<lambda>r. relevance (text_response_evaluation r)) (evaluated rs)),
          ''combined'' \<mapsto> bins py_round combined]"
    unfolding calculate_metrics_unfold [OF assms(1)]
    by (auto split: sum.splits)
  from combined_scores_result [OF c]
  have "combined = map (\<lambda>r. float_of lib (arithmetic_mean r)) (evaluated rs)" by simp
  with c cnt d show ?thesis by simp
qed

lemma overflow_bound: "(31::real) \<le> 2 ^ 1024 - 2 ^ 970"
proof -
  have "(2::real) ^ 1024 = 2 ^ 54 * 2 ^ 970" by (simp add: power_add [symmetric])
  then have e: "(2::real) ^ 1024 - 2 ^ 970 = (2 ^ 54 - 1) * 2 ^ 970" by (simp add: algebra_simps)
  have a: "(1::real) \<le> 2 ^ 970" by simp
  have b: "(31::real) \<le> 2 ^ 54 - 1" by simp
  have "(31::real) * 1 \<le> (2 ^ 54 - 1) * 2 ^ 970"
    using a b by (intro mult_mono) simp_all
  with e show ?thesis by simp
qed

lemma small_not_overflow: "\<bar>x\<bar> \<le> 30 \<Longrightarrow> \<not> float_overflow x"
  using overflow_bound by (simp add: float_overflow_def)

lemma big_overflow: "float_overflow (real_of_int (3 * 2 ^ 1024 + 0 + 0) / 3)"
proof -
  have "real_of_int (3 * 2 ^ 1024 + 0 + 0) / 3 = 2 ^ 1024" by simp
  moreover have "(0::real) \<le> 2 ^ 970" by simp
  ultimately show ?thesis by (simp add: float_overflow_def)
qed

lemma combined_scores_overflow:
  "float_overflow (real_of_int (a + c + r) / 3)
   \<Longrightarrow> combined_scores fl ((a, c, r) # xs) = Inl OverflowError"
  by (simp add: true_divide_def)

lemma example_not_skipped: "\<not> sublist ''Skipped due to timeout'' ''close match''"
  by (simp add: sublist_code)

lemma beyond_float_range_no_result:
  assumes "evaluated [r] = [r]"
    and "float_overflow (real_of_int (accuracy (text_response_evaluation r)
           + completeness (text_response_evaluation r) + relevance (text_response_evaluation r)) / 3)"
  shows "\<exists>e. calculate_metrics lib [r] = Inl e"
proof -
  from assms(1) have ne: "evaluated [r] \<noteq> []" by simp
  have c: "combined_scores (float_of lib) (map scores_of [r]) = Inl OverflowError"
    unfolding list.map scores_of_def [of r] by (rule combined_scores_overflow [OF assms(2)])
  show ?thesis
    unfolding calculate_metrics_unfold [OF ne] assms(1) c
    by (simp split: sum.splits)
qed

text \<open>
  Claim C7, as the code has it.  On a list with at least one evaluated record,
  \<open>calculate_metrics\<close> returns a result whenever no record's mean \<open>(a + c + r) / 3\<close> is
  beyond the range of a float and the five statistics of the four series are computed.
  Whenever it returns, the count is the number of evaluated records, the combined series
  holds for each evaluated record, in order, the float quotient \<open>(a + c + r) / 3\<close> of its
  three scores, and each of the four distribution maps has exactly the keys 0 to 10, key
  \<open>i\<close> counting the evaluated records whose rounded score on that axis is \<open>i\<close>.
\<close>

theorem combined_and_distribution:
  assumes "evaluated rs \<noteq> []"
  shows "((\<forall>r \<in> set (evaluated rs). \<not> float_overflow (arithmetic_mean r))
       \<and> (\<exists>m. stats_of_ints lib (map (\<lambda>r. accuracy (text_response_evaluation r)) (evaluated rs)) = Inr m)
       \<and> (\<exists>m. stats_of_ints lib (map (\<lambda>r. completeness (text_response_evaluation r)) (evaluated rs)) = Inr m)
       \<and> (\<exists>m. stats_of_ints lib (map (\<lambda>r. relevance (text_response_evaluation r)) (evaluated rs)) = Inr m)
       \<and> (\<exists>m. stats_of_floats lib (map (\<lambda>r. float_of lib (arithmetic_mean r)) (evaluated rs)) = Inr m)
       \<longrightarrow> (\<exists>res. calculate_metrics lib rs = Inr res))
    \<and> (\<forall>res. calculate_metrics lib rs = Inr res \<longrightarrow>
          count res = length (evaluated rs)
        \<and> (case collect_scores rs of
             (a, c, r) \<Rightarrow> combined_scores (float_of lib) (zip a (zip c r)))
            = Inr (map (\<lambda>r. float_of lib (arithmetic_mean r)) (evaluated rs))
        \<and> (\<forall>(name, score) \<in>
              {(''accuracy'', \<lambda>r. real_of_int (accuracy (text_response_evaluation r))),
               (''completeness'', \<lambda>r. real_of_int (completeness (text_response_evaluation r))),
               (''relevance'', \<lambda>r. real_of_int (relevance (text_response_evaluation r))),
               (''combined'', \<lambda>r. float_of lib (arithmetic_mean r))}.
             \<exists>b. distribution res name = Some b \<and> dom b = {0..10}
               \<and> (\<forall>i \<in> {0..10}.
                     b i = Some (length (filter (\<lambda>r. py_round (score r) = i) (evaluated rs))))))"
proof (intro conjI impI allI)
  assume "(\<forall>r \<in> set (evaluated rs). \<not> float_overflow (arithmetic_mean r))
       \<and> (\<exists>m. stats_of_ints lib (map (\<lambda>r. accuracy (text_response_evaluation r)) (evaluated rs)) = Inr m)
       \<and> (\<exists>m. stats_of_ints lib (map (\<lambda>r. completeness (text_response_evaluation r)) (evaluated rs)) = Inr m)
       \<and> (\<exists>m. stats_of_ints lib (map (\<lambda>r. relevance (text_response_evaluation r)) (evaluated rs)) = Inr m)
       \<and> (\<exists>m. stats_of_floats lib (map (\<lambda>r. float_of lib (arithmetic_mean r)) (evaluated rs)) = Inr m)"
  then show "\<exists>res. calculate_metrics lib rs = Inr res"
    using calculate_metrics_returns [OF assms, of lib] by (elim conjE exE) blast
next
  fix res assume r: "calculate_metrics lib rs = Inr res"
  note cr = calculate_metrics_result [OF assms r]
  show "count res = length (evaluated rs)" using cr by simp
  show "(case collect_scores rs of (a, c, r) \<Rightarrow> combined_scores (float_of lib) (zip a (zip c r)))
          = Inr (map (\<lambda>r. float_of lib (arithmetic_mean r)) (evaluated rs))"
    using cr by (simp add: collect_scores_maps zip_scores)
  note d = cr [THEN conjunct2, THEN conjunct2]
  show "\<forall>(name, score) \<in>
              {(''accuracy'', \<lambda>r. real_of_int (accuracy (text_response_evaluation r))),
               (''completeness'', \<lambda>r. real_of_int (completeness (text_response_evaluation r))),
               (''relevance'', \<lambda>r. real_of_int (relevance (text_response_evaluation r))),
               (''combined'', \<lambda>r. float_of lib (arithmetic_mean r))}.
             \<exists>b. distribution res name = Some b \<and> dom b = {0..10}
               \<and> (\<forall>i \<in> {0..10}.
                     b i = Some (length (filter (\<lambda>r. py_round (score r) = i) (evaluated rs))))"
    by (simp add: d dom_bins bins_lookup length_filter_map py_round_of_int round_int_def comp_def)
qed

theorem combined_and_distribution_witness:
  "evaluated [\<lparr>question = ''Q1'', expected_answer = ''Paris is the capital'',
               generated_answer = ''Paris is the capital of France'',
               text_response_evaluation =
                 \<lparr>accuracy = 9, completeness = 8, relevance = 10,
                  justification = ''close match''\<rparr>\<rparr>] \<noteq> []
   \<and> (\<exists>res b. calculate_metrics exact_library
          [\<lparr>question = ''Q1'', expected_answer = ''Paris is the capital'',
            generated_answer = ''Paris is the capital of France'',
            text_response_evaluation =
              \<lparr>accuracy = 9, completeness = 8, relevance = 10,
               justification = ''close match''\<rparr>\<rparr>] = Inr res
        \<and> count res = 1
        \<and> distribution res ''combined'' = Some b \<and> dom b = {0..10}
        \<and> b 9 = Some 1 \<and> b 0 = Some 0)"
proof -
  let ?r = "\<lparr>question = ''Q1'', expected_answer = ''Paris is the capital'',
             generated_answer = ''Paris is the capital of France'',
             text_response_evaluation =
               \<lparr>accuracy = 9, completeness = 8, relevance = 10,
                justification = ''close match''\<rparr>\<rparr>"
  let ?S = "{(''accuracy'', \<lambda>r. real_of_int (accuracy (text_response_evaluation r))),
           (''completeness'', \<lambda>r. real_of_int (completeness (text_response_evaluation r))),
           (''relevance'', \<lambda>r. real_of_int (relevance (text_response_evaluation r))),
           (''combined'', \<lambda>r. float_of exact_library (arithmetic_mean r))}"
  have e: "evaluated [?r] = [?r]"
    using example_not_skipped by (simp add: evaluated_def is_skipped_def)
  then have ne: "evaluated [?r] \<noteq> []" by simp
  have m: "arithmetic_mean ?r = 9" by (simp add: arithmetic_mean_def)
  have c9: "py_round (float_of exact_library (arithmetic_mean ?r)) = 9"
    by (simp add: m exact_library_def py_round_def)
  have h: "(\<forall>r \<in> set (evaluated [?r]). \<not> float_overflow (arithmetic_mean r))
       \<and> (\<exists>m. stats_of_ints exact_library (map (\<lambda>r. accuracy (text_response_evaluation r)) (evaluated [?r])) = Inr m)
       \<and> (\<exists>m. stats_of_ints exact_library (map (\<lambda>r. completeness (text_response_evaluation r)) (evaluated [?r])) = Inr m)
       \<and> (\<exists>m. stats_of_ints exact_library (map (\<lambda>r. relevance (text_response_evaluation r)) (evaluated [?r])) = Inr m)
       \<and> (\<exists>m. stats_of_floats exact_library (map (\<lambda>r. float_of exact_library (arithmetic_mean r)) (evaluated [?r])) = Inr m)"
    unfolding e using small_not_overflow [of "arithmetic_mean ?r"]
    by (simp add: m exact_library_def summary_def)
  note t = combined_and_distribution [OF ne, of exact_library]
  from t [THEN conjunct1, THEN mp, OF h] obtain res where
    run: "calculate_metrics exact_library [?r] = Inr res" ..
  note p = t [THEN conjunct2, THEN spec, THEN mp, OF run]
  note cnt = p [THEN conjunct1]
  note dist = p [THEN conjunct2, THEN conjunct2]
  have "(''combined'', \<lambda>r. float_of exact_library (arithmetic_mean r)) \<in> ?S" by simp
  from bspec [OF dist this] obtain b where
    b: "distribution res ''combined'' = Some b \<and> dom b = {0..10}
         \<and> (\<forall>i \<in> {0..10}.
               b i = Some (length (filter (\<lambda>r. py_round (float_of exact_library (arithmetic_mean r)) = i)
                                     (evaluated [?r]))))"
    by (simp only: prod.case) (erule exE)
  note bi = b [THEN conjunct2, THEN conjunct2]
  have i9: "(9::int) \<in> {0..10}" and i0: "(0::int) \<in> {0..10}" by simp_all
  have b9: "b 9 = Some 1" using bspec [OF bi i9] c9 unfolding e by simp
  have b0: "b 0 = Some 0" using bspec [OF bi i0] c9 unfolding e by simp
  have c1: "count res = 1" using cnt e by simp
  from run c1 b b9 b0 ne show ?thesis by blast
qed

text \<open>
  As stated, C7 fails on an evaluated record whose scores are too large: the parser bounds no
  score, and the quotient of \<open>3 * 2 ^ 1024\<close> by 3 is no float, so the division raises
  \<open>OverflowError\<close> and neither a combined series nor a distribution is produced.  With
  such a record the call returns no result with any statistics library
  (\<open>beyond_float_range_no_result\<close>).
\<close>

theorem combined_and_distribution_counterexample:
  "evaluated [\<lparr>question = ''Q1'', expected_answer = ''A1'', generated_answer = ''G1'',
               text_response_evaluation =
                 \<lparr>accuracy = 3 * 2 ^ 1024, completeness = 0, relevance = 0,
                  justification = ''close match''\<rparr>\<rparr>] \<noteq> []
   \<and> calculate_metrics exact_library
        [\<lparr>question = ''Q1'', expected_answer = ''A1'', generated_answer = ''G1'',
          text_response_evaluation =
            \<lparr>accuracy = 3 * 2 ^ 1024, completeness = 0, relevance = 0,
             justification = ''close match''\<rparr>\<rparr>] = Inl OverflowError"
proof -
  let ?r = "\<lparr>question = ''Q1'', expected_answer = ''A1'', generated_answer = ''G1'',
               text_response_evaluation =
                 \<lparr>accuracy = 3 * 2 ^ 1024, completeness = 0, relevance = 0,
                  justification = ''close match''\<rparr>\<rparr>"
  have e: "evaluated [?r] = [?r]"
    using example_not_skipped by (simp add: evaluated_def is_skipped_def)
  then have ne: "evaluated [?r] \<noteq> []" by simp
  have s: "scores_of ?r = (3 * 2 ^ 1024, 0, 0)" by (simp add: scores_of_def)
  have c: "combined_scores (float_of exact_library) (map scores_of [?r]) = Inl OverflowError"
    unfolding list.map s by (rule combined_scores_overflow [OF big_overflow])
  have "calculate_metrics exact_library [?r] = Inl OverflowError"
    unfolding calculate_metrics_unfold [OF ne] e c
    by (simp add: exact_library_def summary_def)
  with ne show ?thesis by (intro conjI)
qed

text \<open>
  Claim C8.  On the empty list, and on a list in which the justification of every record
  contains \<open>Skipped due to timeout\<close>, \<open>calculate_metrics\<close> returns count 0 with empty
  metrics and distribution maps; it returns, so no error is raised, with any statistics
  library.
\<close>

theorem no_evaluated_records:
  assumes "rs = [] \<or> (\<forall>r \<in> set rs.
             sublist ''Skipped due to timeout'' (justification (text_response_evaluation r)))"
  shows "calculate_metrics lib rs = Inr \<lparr>count = 0, metrics = Map.empty, distribution = Map.empty\<rparr>"
proof (cases "rs = []")
  case True
  then show ?thesis by (simp add: calculate_metrics_def empty_metrics_def)
next
  case False
  with assms have "evaluated rs = []"
    by (auto simp: evaluated_def is_skipped_def filter_empty_conv)
  then show ?thesis
    by (simp add: calculate_metrics_def collect_scores_maps empty_metrics_def)
qed

theorem no_evaluated_records_witness:
  "calculate_metrics exact_library [] =
     Inr \<lparr>count = 0, metrics = Map.empty, distribution = Map.empty\<rparr>
   \<and> calculate_metrics exact_library
       [\<lparr>question = ''Q1'', expected_answer = ''A1'', generated_answer = timeout_message,
         text_response_evaluation =
           \<lparr>accuracy = 0, completeness = 0, relevance = 0,
            justification = ''Skipped due to timeout error in the response''\<rparr>\<rparr>]
     = Inr \<lparr>count = 0, metrics = Map.empty, distribution = Map.empty\<rparr>"
proof -
  let ?r = "\<lparr>question = ''Q1'', expected_answer = ''A1'', generated_answer = timeout_message,
         text_response_evaluation =
           \<lparr>accuracy = 0, completeness = 0, relevance = 0,
            justification = ''Skipped due to timeout error in the response''\<rparr>\<rparr>"
  have 1: "([]::result_entry list) = [] \<or> (\<forall>r \<in> set ([]::result_entry list).
             sublist ''Skipped due to timeout'' (justification (text_response_evaluation r)))"
    by simp
  have "\<forall>r \<in> set [?r]. sublist ''Skipped due to timeout'' (justification (text_response_evaluation r))"
    by (simp add: sublist_code)
  then have 2: "[?r] = [] \<or> (\<forall>r \<in> set [?r].
             sublist ''Skipped due to timeout'' (justification (text_response_evaluation r)))" ..
  from no_evaluated_records [OF 1, of exact_library] no_evaluated_records [OF 2, of exact_library]
  show ?thesis by (intro conjI)
qed

end
